theory Spec2Isabelle
  imports Complex_Main "HOL-Library.Word" "HOL-Library.Log_Nat"
begin

section \<open>Data model\<close>

text \<open>
  The embedding follows \<^verbatim>\<open>backend/app/pdf_processor.py\<close> (class \<^verbatim>\<open>PDFProcessor\<close>).
  Python ints are integers, \<^verbatim>\<open>bytes\<close> lists of octets and \<^verbatim>\<open>str\<close> UTF-8 encoded
  strings.  Python floats are read as real numbers in the page geometry, where the
  conversions stay symbolic; the two unit converters are also given with their
  double-precision arithmetic, rounding and overflow included.  The two libraries the module calls,
  PyMuPDF (\<^verbatim>\<open>fitz\<close>) and Pillow (\<^verbatim>\<open>PIL\<close>), are not part of the repository: what they
  compute from raw data (parsing, decoding, font metrics, resampling) is a parameter of
  the model, collected in the record \<open>env\<close>; what the module itself decides (which call,
  with which arguments, in which order, on which exit path) is written out.
\<close>

type_synonym bytes = "8 word list"

datatype exn =
    FileDataError string
  | UnidentifiedImageError string
  | LibraryError string

fun exn_str :: "exn \<Rightarrow> string" where
  "exn_str (FileDataError m) = m"
| "exn_str (UnidentifiedImageError m) = m"
| "exn_str (LibraryError m) = m"

text \<open>\<^verbatim>\<open>fitz.Rect(x0, y0, x1, y1)\<close>.\<close>

datatype rect = Rect real real real real

text \<open>A Pillow image: its mode string, its size (width, height) and its pixel access.\<close>

record image =
  img_mode :: string
  img_size :: "int \<times> int"
  getpixel :: "int \<times> int \<Rightarrow> nat list"

datatype font = FreeTypeFont string int | DefaultFont

text \<open>The PNG stream written by \<^verbatim>\<open>Image.save(..., format='PNG')\<close>; PNG is lossless, so
  the stream is identified with the image it encodes.\<close>

datatype stream = PNG (png_image: image)

text \<open>What the module adds to a page: \<^verbatim>\<open>page.draw_rect(rect, color=..., fill=...)\<close> and
  \<^verbatim>\<open>page.insert_image(rect, stream=...)\<close>.\<close>

datatype drawing =
    DrawRect (drawing_rect: rect) "int \<times> int \<times> int" "int \<times> int \<times> int"
  | InsertImage (drawing_rect: rect) (drawing_stream: stream)

record page =
  page_width :: real
  page_height :: real
  contents :: "drawing list"

record document =
  handle :: nat
  pages :: "page list"

text \<open>The process state: one flag per document handle ever opened (\<open>True\<close> while the
  handle is open), and the lines written to the module's logger.\<close>

record world =
  handles :: "bool list"
  logged :: "string list"

text \<open>The library calls made inside the \<^verbatim>\<open>try\<close> block of
  \<^verbatim>\<open>replace_band_with_image\<close>, each tagged with the page number it is made for.\<close>

datatype libcall =
    LoadPage nat
  | PageDrawRect nat
  | ImageResize nat
  | ImageSave nat
  | PageInsertImage nat
  | DocToBytes

record env =
  pdf_parse :: "bytes \<Rightarrow> string + page list"
  pdf_write :: "page list \<Rightarrow> bytes"
  raises :: "libcall \<Rightarrow> string option"
  image_decode :: "bytes \<Rightarrow> string + image"
  getrgb :: "string \<Rightarrow> nat list"
  font_loadable :: "string \<Rightarrow> int \<Rightarrow> bool"
  text_bbox :: "font \<Rightarrow> string \<Rightarrow> int \<times> int \<times> int \<times> int"
  text_pixels :: "image \<Rightarrow> int \<times> int \<Rightarrow> string \<Rightarrow> nat list \<Rightarrow> font \<Rightarrow> int \<times> int \<Rightarrow> nat list"
  lanczos :: "image \<Rightarrow> int \<times> int \<Rightarrow> int \<times> int \<Rightarrow> nat list"
  convert_pixels :: "image \<Rightarrow> string \<Rightarrow> int \<times> int \<Rightarrow> nat list"

section \<open>Library calls\<close>

text \<open>Python's \<^verbatim>\<open>int(x)\<close> on a float truncates towards zero.\<close>

definition py_int :: "real \<Rightarrow> int" where
  "py_int x = (if 0 \<le> x then \<lfloor>x\<rfloor> else \<lceil>x\<rceil>)"

text \<open>\<^verbatim>\<open>fitz.open(stream=pdf_bytes, filetype="pdf")\<close>: raises on bytes that do not parse,
  otherwise registers a new open handle.\<close>

definition fitz_open :: "env \<Rightarrow> bytes \<Rightarrow> world \<Rightarrow> (exn + document) \<times> world" where
  "fitz_open E pdf_bytes w =
     (case pdf_parse E pdf_bytes of
        Inl m \<Rightarrow> (Inl (FileDataError m), w)
      | Inr ps \<Rightarrow>
          (Inr \<lparr>handle = length (handles w), pages = ps\<rparr>,
           w\<lparr>handles := handles w @ [True]\<rparr>))"

text \<open>\<^verbatim>\<open>doc.close()\<close>.\<close>

definition doc_close :: "document \<Rightarrow> world \<Rightarrow> world" where
  "doc_close doc w = w\<lparr>handles := (handles w)[handle doc := False]\<rparr>"

text \<open>\<^verbatim>\<open>len(doc)\<close>.\<close>

definition doc_len :: "document \<Rightarrow> nat" where
  "doc_len doc = length (pages doc)"

text \<open>\<^verbatim>\<open>logger.error(msg)\<close>.\<close>

definition logger_error :: "string \<Rightarrow> world \<Rightarrow> world" where
  "logger_error msg w = w\<lparr>logged := logged w @ [msg]\<rparr>"

text \<open>A library call inside the \<^verbatim>\<open>try\<close> block either raises or yields its result.\<close>

definition attempt :: "env \<Rightarrow> libcall \<Rightarrow> 'a \<Rightarrow> exn + 'a" where
  "attempt E c v = (case raises E c of Some m \<Rightarrow> Inl (LibraryError m) | None \<Rightarrow> Inr v)"

text \<open>\<^verbatim>\<open>Image.new(mode, size, color)\<close>: every pixel has the given colour.\<close>

definition Image_new :: "string \<Rightarrow> int \<times> int \<Rightarrow> nat list \<Rightarrow> image" where
  "Image_new m sz c = \<lparr>img_mode = m, img_size = sz, getpixel = (\<lambda>_. c)\<rparr>"

text \<open>\<^verbatim>\<open>Image.open(io.BytesIO(image_bytes))\<close>.\<close>

definition Image_open :: "env \<Rightarrow> bytes \<Rightarrow> exn + image" where
  "Image_open E image_bytes =
     (case image_decode E image_bytes of
        Inl m \<Rightarrow> Inl (UnidentifiedImageError m)
      | Inr im \<Rightarrow> Inr im)"

text \<open>\<^verbatim>\<open>im.resize(size, Image.LANCZOS)\<close>: same mode, the requested size.\<close>

definition Image_resize :: "env \<Rightarrow> image \<Rightarrow> int \<times> int \<Rightarrow> image" where
  "Image_resize E im sz = im\<lparr>img_size := sz, getpixel := lanczos E im sz\<rparr>"

text \<open>\<^verbatim>\<open>im.convert(mode)\<close>: same size, the requested mode.  Pillow converts the
  greyscale modes L and LA to RGB by copying the grey value into the three colour bands
  (the alpha band of LA is dropped); the other conversions are left to \<open>convert_pixels\<close>.\<close>

definition Image_convert :: "env \<Rightarrow> image \<Rightarrow> string \<Rightarrow> image" where
  "Image_convert E im m =
     im\<lparr>img_mode := m,
        getpixel :=
          (if (img_mode im = ''L'' \<or> img_mode im = ''LA'') \<and> m = ''RGB''
           then (\<lambda>p. replicate 3 (hd (getpixel im p)))
           else convert_pixels E im m)\<rparr>"

text \<open>\<^verbatim>\<open>im.split()[-1]\<close>: the last band of the image, as a single-band image.\<close>

definition split_last :: "image \<Rightarrow> image" where
  "split_last im = \<lparr>img_mode = ''L'', img_size = img_size im,
                     getpixel = (\<lambda>p. [last (getpixel im p)])\<rparr>"

text \<open>Pillow's 8-bit blend: \<^verbatim>\<open>DIV255(in1 * (255 - mask) + in2 * mask)\<close> with
  \<^verbatim>\<open>DIV255(a) = (((a + 128) >> 8) + (a + 128)) >> 8\<close>.\<close>

definition div255 :: "nat \<Rightarrow> nat" where
  "div255 a = ((a + 128) div 256 + (a + 128)) div 256"

definition blend8 :: "nat \<Rightarrow> nat \<Rightarrow> nat \<Rightarrow> nat" where
  "blend8 m in1 in2 = div255 (in1 * (255 - m) + in2 * m)"

text \<open>\<^verbatim>\<open>background.paste(im, mask=mask)\<close> for images of one size: each band of the
  background is blended with the same band of \<^verbatim>\<open>im\<close>, weighted by the mask.\<close>

definition Image_paste :: "image \<Rightarrow> image \<Rightarrow> image \<Rightarrow> image" where
  "Image_paste background im msk =
     background\<lparr>getpixel := (\<lambda>p. map2 (blend8 (hd (getpixel msk p)))
                                        (getpixel background p) (getpixel im p))\<rparr>"

text \<open>\<^verbatim>\<open>ImageFont.truetype(path, size)\<close> raises \<^verbatim>\<open>OSError\<close> (here \<open>None\<close>) when the font
  cannot be loaded; \<^verbatim>\<open>ImageFont.load_default()\<close> is the built-in font.\<close>

definition ImageFont_truetype :: "env \<Rightarrow> string \<Rightarrow> int \<Rightarrow> font option" where
  "ImageFont_truetype E path sz =
     (if font_loadable E path sz then Some (FreeTypeFont path sz) else None)"

definition ImageFont_load_default :: font where
  "ImageFont_load_default = DefaultFont"

text \<open>\<^verbatim>\<open>draw.text(xy, text, fill=..., font=...)\<close> draws into the image in place: mode and
  size stay, the pixels change.\<close>

definition ImageDraw_text ::
  "env \<Rightarrow> image \<Rightarrow> int \<times> int \<Rightarrow> string \<Rightarrow> nat list \<Rightarrow> font \<Rightarrow> image" where
  "ImageDraw_text E im xy t fill f = im\<lparr>getpixel := text_pixels E im xy t fill f\<rparr>"

section \<open>Unit conversion\<close>

definition dpi :: real where
  "dpi = 72"

definition mm_to_points :: "real \<Rightarrow> real" where
  "mm_to_points mm = mm * dpi / 25.4"

definition points_to_mm :: "real \<Rightarrow> real" where
  "points_to_mm points = points * 25.4 / dpi"

section \<open>Unit conversion in double precision\<close>

text \<open>
  The two converters again, this time with the arithmetic Python performs: \<^verbatim>\<open>mm\<close> and
  \<^verbatim>\<open>points\<close> are floats (IEEE 754 binary64), \<^verbatim>\<open>self.dpi\<close> is the integer 72, converted
  exactly, \<^verbatim>\<open>25.4\<close> is the double nearest to 25.4, and every product and quotient is
  rounded to the nearest double, ties to even.  A finite double is given by its value, a
  rational number (the two zeros are not told apart).
\<close>

datatype f64 = Finite rat | Infinity bool | NaN

text \<open>Rounding a rational to the nearest integer, ties to the even one.\<close>

definition round_half_even :: "rat \<Rightarrow> int" where
  "round_half_even q =
     (let n = \<lfloor>q\<rfloor>; f = q - of_int n
      in if f < 1 / 2 then n
         else if 1 / 2 < f then n + 1
         else if even n then n else n + 1)"

text \<open>The binary exponent of a non-zero rational \<open>r\<close>: the \<open>e\<close> with
  \<open>2 powi e \<le> \<bar>r\<bar> < 2 powi (e + 1)\<close>, found from the bit lengths of numerator and
  denominator.\<close>

definition expo :: "rat \<Rightarrow> int" where
  "expo r =
     (let (p, q) = quotient_of \<bar>r\<bar>;
          d = int (floorlog 2 (nat p)) - int (floorlog 2 (nat q))
      in if 2 powi d \<le> \<bar>r\<bar> then d else d - 1)"

text \<open>Rounding to 53 significant bits, with the exponent not below -1022 (below that the
  spacing of the subnormal numbers is used).\<close>

definition rnd64 :: "rat \<Rightarrow> rat" where
  "rnd64 r =
     (if r = 0 then 0
      else
        (let e = max (expo r) (- 1022);
             u = 2 powi (e - 52)
         in of_int (round_half_even (r / u)) * u))"

text \<open>The double for an exact result \<open>r\<close>: the rounded value, or an infinity when the
  rounded value is out of range.\<close>

definition fl :: "rat \<Rightarrow> f64" where
  "fl r = (let v = rnd64 r in if 2 powi 1024 \<le> \<bar>v\<bar> then Infinity (0 < v) else Finite v)"

text \<open>Float multiplication.\<close>

fun fmul :: "f64 \<Rightarrow> f64 \<Rightarrow> f64" where
  "fmul (Finite a) (Finite b) = fl (a * b)"
| "fmul (Finite a) (Infinity s) = (if a = 0 then NaN else Infinity (s = (0 < a)))"
| "fmul (Infinity s) (Finite b) = (if b = 0 then NaN else Infinity (s = (0 < b)))"
| "fmul (Infinity s) (Infinity t) = Infinity (s = t)"
| "fmul NaN _ = NaN"
| "fmul _ NaN = NaN"

text \<open>Float division; Python raises \<^verbatim>\<open>ZeroDivisionError\<close> (here \<open>None\<close>) when the divisor
  is zero.\<close>

fun fdiv :: "f64 \<Rightarrow> f64 \<Rightarrow> f64 option" where
  "fdiv (Finite a) (Finite b) = (if b = 0 then None else Some (fl (a / b)))"
| "fdiv (Infinity s) (Finite b) = (if b = 0 then None else Some (Infinity (s = (0 < b))))"
| "fdiv (Finite a) (Infinity t) = Some (Finite 0)"
| "fdiv (Infinity s) (Infinity t) = Some NaN"
| "fdiv NaN (Finite b) = (if b = 0 then None else Some NaN)"
| "fdiv NaN _ = Some NaN"
| "fdiv _ NaN = Some NaN"

definition mm_to_points_float :: "f64 \<Rightarrow> f64 option" where
  "mm_to_points_float mm = fdiv (fmul mm (Finite 72)) (fl 25.4)"

definition points_to_mm_float :: "f64 \<Rightarrow> f64 option" where
  "points_to_mm_float points = fdiv (fmul points (fl 25.4)) (Finite 72)"

section \<open>Band image generation\<close>

definition create_band_image ::
  "env \<Rightarrow> int \<Rightarrow> int \<Rightarrow> string \<Rightarrow> string option \<Rightarrow> string \<Rightarrow> image" where
  "create_band_image E width height background_color text_content text_color =
     (let img = Image_new ''RGB'' (width, height) (getrgb E background_color) in
      case text_content of
        None \<Rightarrow> img
      | Some t \<Rightarrow>
          if t = [] then img
          else
            (let font_size = min (height div 3) 48;
                 fnt = (case ImageFont_truetype E ''/System/Library/Fonts/Arial.ttf'' font_size of
                          Some f \<Rightarrow> f
                        | None \<Rightarrow> ImageFont_load_default);
                 bbox = text_bbox E fnt t;
                 text_width = fst (snd (snd bbox)) - fst bbox;
                 text_height = snd (snd (snd bbox)) - fst (snd bbox);
                 x = (width - text_width) div 2;
                 y = (height - text_height) div 2
             in ImageDraw_text E img (x, y) t (getrgb E text_color) fnt))"

section \<open>Compositing\<close>

text \<open>The body of the page loop of \<^verbatim>\<open>replace_band_with_image\<close>, for page \<open>page_num\<close>.\<close>

definition band_page ::
  "env \<Rightarrow> image \<Rightarrow> real \<Rightarrow> real \<Rightarrow> page list \<Rightarrow> nat \<Rightarrow> exn + page list" where
  "band_page E band_image height_mm y_offset_mm ps page_num =
     (case attempt E (LoadPage page_num) (ps ! page_num) of
        Inl e \<Rightarrow> Inl e
      | Inr pg \<Rightarrow>
          (let pw = page_width pg;
               band_height_pt = mm_to_points height_mm;
               y_offset_pt = mm_to_points y_offset_mm;
               band_rect = Rect 0 y_offset_pt pw (y_offset_pt + band_height_pt)
           in case attempt E (PageDrawRect page_num)
                     (pg\<lparr>contents := contents pg @ [DrawRect band_rect (1, 1, 1) (1, 1, 1)]\<rparr>) of
                Inl e \<Rightarrow> Inl e
              | Inr pg1 \<Rightarrow>
                  (case attempt E (ImageResize page_num)
                          (Image_resize E band_image (py_int pw, py_int band_height_pt)) of
                     Inl e \<Rightarrow> Inl e
                   | Inr band_image_resized \<Rightarrow>
                       (case attempt E (ImageSave page_num) (PNG band_image_resized) of
                          Inl e \<Rightarrow> Inl e
                        | Inr img_bytes \<Rightarrow>
                            (case attempt E (PageInsertImage page_num)
                                    (pg1\<lparr>contents := contents pg1 @ [InsertImage band_rect img_bytes]\<rparr>) of
                               Inl e \<Rightarrow> Inl e
                             | Inr pg2 \<Rightarrow> Inr (ps[page_num := pg2]))))))"

text \<open>\<^verbatim>\<open>for page_num in range(len(doc))\<close>: stops at the first exception.\<close>

fun page_loop ::
  "env \<Rightarrow> image \<Rightarrow> real \<Rightarrow> real \<Rightarrow> page list \<Rightarrow> nat list \<Rightarrow> exn + page list" where
  "page_loop E band_image height_mm y_offset_mm ps [] = Inr ps"
| "page_loop E band_image height_mm y_offset_mm ps (n # ns) =
     (case band_page E band_image height_mm y_offset_mm ps n of
        Inl e \<Rightarrow> Inl e
      | Inr ps' \<Rightarrow> page_loop E band_image height_mm y_offset_mm ps' ns)"

text \<open>The \<^verbatim>\<open>try\<close> block: the page loop, then \<^verbatim>\<open>doc.tobytes()\<close>.\<close>

definition band_document ::
  "env \<Rightarrow> image \<Rightarrow> real \<Rightarrow> real \<Rightarrow> document \<Rightarrow> exn + bytes" where
  "band_document E band_image height_mm y_offset_mm doc =
     (case page_loop E band_image height_mm y_offset_mm (pages doc) [0..<doc_len doc] of
        Inl e \<Rightarrow> Inl e
      | Inr ps \<Rightarrow> attempt E DocToBytes (pdf_write E ps))"

definition replace_band_with_image ::
  "env \<Rightarrow> bytes \<Rightarrow> image \<Rightarrow> real \<Rightarrow> real \<Rightarrow> world \<Rightarrow> (exn + bytes) \<times> world" where
  "replace_band_with_image E pdf_bytes band_image height_mm y_offset_mm w =
     (case fitz_open E pdf_bytes w of
        (Inl e, w1) \<Rightarrow> (Inl e, w1)
      | (Inr doc, w1) \<Rightarrow>
          (case band_document E band_image height_mm y_offset_mm doc of
             Inr output_bytes \<Rightarrow> (Inr output_bytes, doc_close doc w1)
           | Inl e \<Rightarrow>
               (Inl e, doc_close doc
                  (logger_error (''PDF processing error: '' @ exn_str e) w1))))"

text \<open>Lines 157 to 166 of \<^verbatim>\<open>replace_band_with_uploaded_image\<close>: the uploaded image is
  opened and brought to mode RGB.\<close>

definition uploaded_band_image :: "env \<Rightarrow> bytes \<Rightarrow> exn + image" where
  "uploaded_band_image E image_bytes =
     (case Image_open E image_bytes of
        Inl e \<Rightarrow> Inl e
      | Inr band_image \<Rightarrow>
          if img_mode band_image = ''RGBA'' then
            (let background = Image_new ''RGB'' (img_size band_image) [255, 255, 255]
             in Inr (Image_paste background band_image (split_last band_image)))
          else if img_mode band_image \<noteq> ''RGB'' then
            Inr (Image_convert E band_image ''RGB'')
          else Inr band_image)"

definition replace_band_with_uploaded_image ::
  "env \<Rightarrow> bytes \<Rightarrow> bytes \<Rightarrow> real \<Rightarrow> real \<Rightarrow> world \<Rightarrow> (exn + bytes) \<times> world" where
  "replace_band_with_uploaded_image E pdf_bytes image_bytes height_mm y_offset_mm w =
     (case uploaded_band_image E image_bytes of
        Inl e \<Rightarrow> (Inl e, w)
      | Inr band_image \<Rightarrow>
          replace_band_with_image E pdf_bytes band_image height_mm y_offset_mm w)"

section \<open>Dispatch\<close>

text \<open>\<^verbatim>\<open>if replace_image_bytes:\<close> is Python truthiness: \<^verbatim>\<open>None\<close> and \<^verbatim>\<open>b""\<close> are both
  false.\<close>

definition process_pdf ::
  "env \<Rightarrow> bytes \<Rightarrow> real \<Rightarrow> real \<Rightarrow> string \<Rightarrow> string option \<Rightarrow> string \<Rightarrow> bytes option
     \<Rightarrow> world \<Rightarrow> (exn + bytes) \<times> world" where
  "process_pdf E pdf_bytes height_mm y_offset_mm background_color text_content text_color
       replace_image_bytes w =
     (if replace_image_bytes \<noteq> None \<and> replace_image_bytes \<noteq> Some [] then
        replace_band_with_uploaded_image E pdf_bytes (the replace_image_bytes)
          height_mm y_offset_mm w
      else
        (let temp_width = py_int (mm_to_points 210);
             temp_height = py_int (mm_to_points height_mm);
             band_image = create_band_image E temp_width temp_height
                            background_color text_content text_color
         in replace_band_with_image E pdf_bytes band_image height_mm y_offset_mm w))"

section \<open>Validation\<close>

definition msg_no_pages :: string where
  "msg_no_pages = ''PDF'' @
     [CHR 0xE3, CHR 0x81, CHR 0xAB, CHR 0xE3, CHR 0x83, CHR 0x9A, CHR 0xE3, CHR 0x83, CHR 0xBC,
      CHR 0xE3, CHR 0x82, CHR 0xB8, CHR 0xE3, CHR 0x81, CHR 0x8C, CHR 0xE5, CHR 0x90, CHR 0xAB,
      CHR 0xE3, CHR 0x81, CHR 0xBE, CHR 0xE3, CHR 0x82, CHR 0x8C, CHR 0xE3, CHR 0x81, CHR 0xA6,
      CHR 0xE3, CHR 0x81, CHR 0x84, CHR 0xE3, CHR 0x81, CHR 0xBE, CHR 0xE3, CHR 0x81, CHR 0x9B,
      CHR 0xE3, CHR 0x82, CHR 0x93]"

definition msg_too_many :: string where
  "msg_too_many = ''PDF'' @
     [CHR 0xE3, CHR 0x81, CHR 0xAE, CHR 0xE3, CHR 0x83, CHR 0x9A, CHR 0xE3, CHR 0x83, CHR 0xBC,
      CHR 0xE3, CHR 0x82, CHR 0xB8, CHR 0xE6, CHR 0x95, CHR 0xB0, CHR 0xE3, CHR 0x81, CHR 0x8C,
      CHR 0xE5, CHR 0xA4, CHR 0x9A, CHR 0xE3, CHR 0x81, CHR 0x99, CHR 0xE3, CHR 0x81, CHR 0x8E,
      CHR 0xE3, CHR 0x81, CHR 0xBE, CHR 0xE3, CHR 0x81, CHR 0x99, CHR 0xEF, CHR 0xBC, CHR 0x88,
      CHR 0xE6, CHR 0x9C, CHR 0x80, CHR 0xE5, CHR 0xA4, CHR 0xA7, CHR 0x35, CHR 0x30, CHR 0xE3,
      CHR 0x83, CHR 0x9A, CHR 0xE3, CHR 0x83, CHR 0xBC, CHR 0xE3, CHR 0x82, CHR 0xB8, CHR 0xEF,
      CHR 0xBC, CHR 0x89]"

definition msg_corrupt :: string where
  "msg_corrupt = ''PDF'' @
     [CHR 0xE3, CHR 0x83, CHR 0x95, CHR 0xE3, CHR 0x82, CHR 0xA1, CHR 0xE3, CHR 0x82, CHR 0xA4,
      CHR 0xE3, CHR 0x83, CHR 0xAB, CHR 0xE3, CHR 0x81, CHR 0x8C, CHR 0xE7, CHR 0xA0, CHR 0xB4,
      CHR 0xE6, CHR 0x90, CHR 0x8D, CHR 0xE3, CHR 0x81, CHR 0x97, CHR 0xE3, CHR 0x81, CHR 0xA6,
      CHR 0xE3, CHR 0x81, CHR 0x84, CHR 0xE3, CHR 0x82, CHR 0x8B, CHR 0xE3, CHR 0x81, CHR 0x8B,
      CHR 0xE3, CHR 0x80, CHR 0x81, CHR 0xE5, CHR 0xBD, CHR 0xA2, CHR 0xE5, CHR 0xBC, CHR 0x8F,
      CHR 0xE3, CHR 0x81, CHR 0x8C, CHR 0xE6, CHR 0xAD, CHR 0xA3, CHR 0xE3, CHR 0x81, CHR 0x97,
      CHR 0xE3, CHR 0x81, CHR 0x8F, CHR 0xE3, CHR 0x81, CHR 0x82, CHR 0xE3, CHR 0x82, CHR 0x8A,
      CHR 0xE3, CHR 0x81, CHR 0xBE, CHR 0xE3, CHR 0x81, CHR 0x9B, CHR 0xE3, CHR 0x82, CHR 0x93,
      CHR 0x3A, CHR 0x20]"

definition validate_pdf :: "env \<Rightarrow> bytes \<Rightarrow> world \<Rightarrow> (bool \<times> string) \<times> world" where
  "validate_pdf E pdf_bytes w =
     (case fitz_open E pdf_bytes w of
        (Inl e, w1) \<Rightarrow> ((False, msg_corrupt @ exn_str e), w1)
      | (Inr doc, w1) \<Rightarrow>
          if doc_len doc = 0 then ((False, msg_no_pages), w1)
          else if doc_len doc > 50 then ((False, msg_too_many), w1)
          else ((True, ''''), doc_close doc w1))"

section \<open>Sample inputs\<close>

text \<open>
  A concrete environment on which the model can be run.  Its PDF reader accepts the
  five-byte header \<^verbatim>\<open>%PDF-\<close> followed by one byte per page, each page of size A4
  (595 by 842 points); its image decoder knows two PNG files of one pixel each, one of
  colour type grey + alpha (Pillow mode LA) and one of colour type RGBA, and rejects
  everything else, the empty byte string included; no font file can be loaded and no
  library call inside the page loop raises.
\<close>

definition pdf_header :: bytes where
  "pdf_header = [0x25, 0x50, 0x44, 0x46, 0x2D]"

definition a4_page :: page where
  "a4_page = \<lparr>page_width = 595, page_height = 842, contents = []\<rparr>"

text \<open>A 1 by 1 PNG, colour type 4 (grey + alpha), pixel (0, 0): black, fully transparent.\<close>

definition la_png :: bytes where
  "la_png =
    [0x89, 0x50, 0x4E, 0x47, 0x0D, 0x0A, 0x1A, 0x0A, 0x00, 0x00, 0x00, 0x0D, 0x49, 0x48,
     0x44, 0x52, 0x00, 0x00, 0x00, 0x01, 0x00, 0x00, 0x00, 0x01, 0x08, 0x04, 0x00, 0x00,
     0x00, 0xB5, 0x1C, 0x0C, 0x02, 0x00, 0x00, 0x00, 0x0B, 0x49, 0x44, 0x41, 0x54, 0x78,
     0xDA, 0x63, 0x60, 0x60, 0x00, 0x00, 0x00, 0x03, 0x00, 0x01, 0x2B, 0x09, 0x4D, 0x84,
     0x00, 0x00, 0x00, 0x00, 0x49, 0x45, 0x4E, 0x44, 0xAE, 0x42, 0x60, 0x82]"

text \<open>A 1 by 1 PNG, colour type 6 (RGBA), pixel (255, 0, 0, 128): half-transparent red.\<close>

definition rgba_png :: bytes where
  "rgba_png =
    [0x89, 0x50, 0x4E, 0x47, 0x0D, 0x0A, 0x1A, 0x0A, 0x00, 0x00, 0x00, 0x0D, 0x49, 0x48,
     0x44, 0x52, 0x00, 0x00, 0x00, 0x01, 0x00, 0x00, 0x00, 0x01, 0x08, 0x06, 0x00, 0x00,
     0x00, 0x1F, 0x15, 0xC4, 0x89, 0x00, 0x00, 0x00, 0x0D, 0x49, 0x44, 0x41, 0x54, 0x78,
     0xDA, 0x63, 0xF8, 0xCF, 0xC0, 0xD0, 0x00, 0x00, 0x04, 0x81, 0x01, 0x80, 0xF3, 0x0B,
     0xDC, 0xA0, 0x00, 0x00, 0x00, 0x00, 0x49, 0x45, 0x4E, 0x44, 0xAE, 0x42, 0x60, 0x82]"

definition sample_parse :: "bytes \<Rightarrow> string + page list" where
  "sample_parse b =
     (if take 5 b = pdf_header then Inr (replicate (length b - 5) a4_page)
      else Inl ''Failed to open stream'')"

definition sample_write :: "page list \<Rightarrow> bytes" where
  "sample_write ps = pdf_header @ replicate (length ps) 0"

definition sample_decode :: "bytes \<Rightarrow> string + image" where
  "sample_decode b =
     (if b = la_png then
        Inr \<lparr>img_mode = ''LA'', img_size = (1, 1), getpixel = (\<lambda>_. [0, 0])\<rparr>
      else if b = rgba_png then
        Inr \<lparr>img_mode = ''RGBA'', img_size = (1, 1), getpixel = (\<lambda>_. [255, 0, 0, 128])\<rparr>
      else Inl ''cannot identify image file'')"

definition sample_getrgb :: "string \<Rightarrow> nat list" where
  "sample_getrgb c =
     (if c = ''#ffffff'' then [255, 255, 255]
      else if c = ''#0000ff'' then [0, 0, 255]
      else if c = ''#ff0000'' then [255, 0, 0]
      else [0, 0, 0])"

definition sample_env :: env where
  "sample_env =
     \<lparr>pdf_parse = sample_parse,
      pdf_write = sample_write,
      raises = (\<lambda>_. None),
      image_decode = sample_decode,
      getrgb = sample_getrgb,
      font_loadable = (\<lambda>_ _. False),
      text_bbox = (\<lambda>_ t. (0, 3, 6 * int (length t), 11)),
      text_pixels = (\<lambda>im _ _ _ _. getpixel im),
      lanczos = (\<lambda>im _. getpixel im),
      convert_pixels = (\<lambda>im _. getpixel im)\<rparr>"

definition world0 :: world where
  "world0 = \<lparr>handles = [], logged = []\<rparr>"

section \<open>Unit conversion: properties\<close>

text \<open>In exact arithmetic the two converters are inverse to each other.\<close>

lemma exact_converters_inverse:
  "mm_to_points mm = mm * 72 / 25.4
   \<and> points_to_mm pt = pt * 25.4 / 72
   \<and> points_to_mm (mm_to_points x) = x"
  by (simp add: mm_to_points_def points_to_mm_def dpi_def)

subsection \<open>Rounding to a double\<close>

lemma round_half_even_error: "\<bar>of_int (round_half_even q) - q\<bar> \<le> 1 / 2"
proof -
  have "of_int \<lfloor>q\<rfloor> \<le> q" "q < of_int \<lfloor>q\<rfloor> + 1" by linarith+
  then show ?thesis
    unfolding round_half_even_def Let_def by (auto simp add: abs_le_iff)
qed

lemma pow2_pos: "0 < (2::rat) powi k"
  by (simp add: zero_less_power_int)

lemma pow2_half: "(2::rat) powi (k - 1) = 2 powi k / 2"
  by (simp add: power_int_diff)

lemma pow2_double: "(2::rat) powi (k + 1) = 2 powi k * 2"
  by (simp add: power_int_add)

lemma pow2_mono: "a \<le> b \<Longrightarrow> (2::rat) powi a \<le> 2 powi b"
  by (rule power_int_increasing) simp_all

lemma pow2_strict_mono: "a < b \<Longrightarrow> (2::rat) powi a < 2 powi b"
  by (rule power_int_strict_increasing) simp_all

lemma pow2_nat: "(2::rat) powi (int n) = 2 ^ n"
  by (simp add: power_int_def)

text \<open>\<open>expo\<close> is the binary exponent.\<close>

lemma expo_bounds:
  assumes "r \<noteq> 0"
  shows "2 powi (expo r) \<le> \<bar>r\<bar> \<and> \<bar>r\<bar> < 2 powi (expo r + 1)"
proof -
  obtain p q where pq: "quotient_of \<bar>r\<bar> = (p, q)" by (cases "quotient_of \<bar>r\<bar>")
  have q0: "0 < q" using quotient_of_denom_pos [OF pq] .
  have r: "\<bar>r\<bar> = of_int p / of_int q" using quotient_of_div [OF pq] .
  have p0: "0 < p"
  proof -
    have "0 < \<bar>r\<bar>" using assms by simp
    then show ?thesis using q0 r by (simp add: zero_less_divide_iff)
  qed
  define bp where "bp = floorlog 2 (nat p)"
  define bq where "bq = floorlog 2 (nat q)"
  define d where "d = int bp - int bq"
  have bp: "2 ^ (bp - 1) \<le> nat p" "nat p < 2 ^ bp"
    using floorlog_bounds [of "nat p" 2] p0 by (simp_all add: bp_def)
  have bq: "2 ^ (bq - 1) \<le> nat q" "nat q < 2 ^ bq"
    using floorlog_bounds [of "nat q" 2] q0 by (simp_all add: bq_def)
  have bp1: "1 \<le> bp" using bp(2) p0 by (cases bp) simp_all
  have bq1: "1 \<le> bq" using bq(2) q0 by (cases bq) simp_all
  have P: "(2::rat) ^ (bp - 1) \<le> of_int p" "(of_int p :: rat) < 2 ^ bp"
  proof -
    have "(of_nat (2 ^ (bp - 1)) :: rat) \<le> of_nat (nat p)" using bp(1) by (simp only: of_nat_le_iff)
    then show "(2::rat) ^ (bp - 1) \<le> of_int p" using p0 by simp
    have "(of_nat (nat p) :: rat) < of_nat (2 ^ bp)" using bp(2) by (simp only: of_nat_less_iff)
    then show "(of_int p :: rat) < 2 ^ bp" using p0 by simp
  qed
  have Q: "(2::rat) ^ (bq - 1) \<le> of_int q" "(of_int q :: rat) < 2 ^ bq"
  proof -
    have "(of_nat (2 ^ (bq - 1)) :: rat) \<le> of_nat (nat q)" using bq(1) by (simp only: of_nat_le_iff)
    then show "(2::rat) ^ (bq - 1) \<le> of_int q" using q0 by simp
    have "(of_nat (nat q) :: rat) < of_nat (2 ^ bq)" using bq(2) by (simp only: of_nat_less_iff)
    then show "(of_int q :: rat) < 2 ^ bq" using q0 by simp
  qed
  have qpos: "(0::rat) < of_int q" using q0 by simp
  have e: "expo r = (if 2 powi d \<le> \<bar>r\<bar> then d else d - 1)"
    by (simp add: expo_def pq d_def bp_def bq_def Let_def)
  have lo: "2 powi (d - 1) \<le> \<bar>r\<bar>"
  proof -
    have "(2::rat) powi (d - 1) * 2 ^ bq = 2 ^ (bp - 1)"
    proof -
      have eq: "d - 1 + int bq = int (bp - 1)" using bp1 by (simp add: d_def)
      have "(2::rat) powi (d - 1) * 2 ^ bq = 2 powi (d - 1) * 2 powi (int bq)"
        by (simp only: pow2_nat)
      also have "\<dots> = 2 powi (d - 1 + int bq)" by (simp add: power_int_add)
      also have "\<dots> = 2 ^ (bp - 1)" by (simp only: eq pow2_nat)
      finally show ?thesis .
    qed
    then have "(2::rat) powi (d - 1) * 2 ^ bq \<le> of_int p" using P(1) by simp
    moreover have "(2::rat) powi (d - 1) * of_int q \<le> 2 powi (d - 1) * 2 ^ bq"
      using Q(2) pow2_pos [of "d - 1"] by (intro mult_left_mono) simp_all
    ultimately have "(2::rat) powi (d - 1) * of_int q \<le> of_int p" by linarith
    then show ?thesis using qpos by (simp add: r pos_le_divide_eq)
  qed
  have hi: "\<bar>r\<bar> < 2 powi (d + 1)"
  proof -
    have "(2::rat) powi (d + 1) * 2 ^ (bq - 1) = 2 ^ bp"
    proof -
      have eq: "d + 1 + int (bq - 1) = int bp" using bq1 by (simp add: d_def)
      have "(2::rat) powi (d + 1) * 2 ^ (bq - 1) = 2 powi (d + 1) * 2 powi (int (bq - 1))"
        by (simp only: pow2_nat)
      also have "\<dots> = 2 powi (d + 1 + int (bq - 1))" by (simp add: power_int_add)
      also have "\<dots> = 2 ^ bp" by (simp only: eq pow2_nat)
      finally show ?thesis .
    qed
    then have "of_int p < (2::rat) powi (d + 1) * 2 ^ (bq - 1)" using P(2) by simp
    moreover have "(2::rat) powi (d + 1) * 2 ^ (bq - 1) \<le> 2 powi (d + 1) * of_int q"
      using Q(1) pow2_pos [of "d + 1"] by (intro mult_left_mono) simp_all
    ultimately have "of_int p < (2::rat) powi (d + 1) * of_int q" by linarith
    then show ?thesis using qpos by (simp add: r pos_divide_less_eq)
  qed
  show ?thesis
  proof (cases "2 powi d \<le> \<bar>r\<bar>")
    case True
    then show ?thesis using hi by (simp add: e)
  next
    case False
    then show ?thesis using lo by (simp add: e)
  qed
qed

lemma expo_eq:
  assumes "2 powi e \<le> \<bar>r\<bar>" and "\<bar>r\<bar> < 2 powi (e + 1)"
  shows "expo r = e"
proof -
  have "r \<noteq> 0"
  proof
    assume "r = 0"
    then have "(2::rat) powi e \<le> 0" using assms(1) by simp
    then show False using pow2_pos [of e] by linarith
  qed
  note b = expo_bounds [OF this]
  have "\<not> expo r < e"
  proof
    assume "expo r < e"
    then have "(2::rat) powi (expo r + 1) \<le> 2 powi e" by (intro pow2_mono) simp
    then show False using b assms(1) by linarith
  qed
  moreover have "\<not> e < expo r"
  proof
    assume "e < expo r"
    then have "(2::rat) powi (e + 1) \<le> 2 powi (expo r)" by (intro pow2_mono) simp
    then show False using b assms(2) by linarith
  qed
  ultimately show ?thesis by linarith
qed

text \<open>A value below \<open>2 powi k\<close> in magnitude is rounded with an error of at most half a
  unit in the last place at that magnitude.\<close>

lemma rnd64_error:
  assumes "\<bar>r\<bar> < 2 powi k" and "- 1021 \<le> k"
  shows "\<bar>rnd64 r - r\<bar> \<le> 2 powi (k - 54)"
proof (cases "r = 0")
  case True
  then show ?thesis using pow2_pos [of "k - 54"] by (simp add: rnd64_def)
next
  case False
  define e where "e = max (expo r) (- 1022)"
  define u where "u = (2::rat) powi (e - 52)"
  have u0: "0 < u" by (simp add: u_def pow2_pos)
  have "expo r < k"
  proof (rule ccontr)
    assume "\<not> expo r < k"
    then have "(2::rat) powi k \<le> 2 powi (expo r)" by (intro pow2_mono) simp
    then show False using expo_bounds [OF False] assms(1) by linarith
  qed
  then have ek: "e - 52 \<le> k - 53" using assms(2) by (simp add: e_def)
  have rn: "rnd64 r = of_int (round_half_even (r / u)) * u"
    using False by (simp add: rnd64_def Let_def e_def u_def)
  have "rnd64 r - r = (of_int (round_half_even (r / u)) - r / u) * u"
    using u0 by (simp add: rn left_diff_distrib)
  then have "\<bar>rnd64 r - r\<bar> = \<bar>of_int (round_half_even (r / u)) - r / u\<bar> * u"
    using u0 by (simp add: abs_mult)
  also have "\<dots> \<le> 1 / 2 * u"
    using round_half_even_error [of "r / u"] u0 by (intro mult_right_mono) simp_all
  also have "\<dots> \<le> 1 / 2 * 2 powi (k - 53)"
    unfolding u_def using pow2_mono [OF ek] by simp
  also have "\<dots> = 2 powi (k - 54)"
    using pow2_half [of "k - 53"] by simp
  finally show ?thesis .
qed

text \<open>Evaluation of the rounding at a given exponent.\<close>

lemma rnd64_eqI:
  assumes "2 powi e \<le> \<bar>r\<bar>" and "\<bar>r\<bar> < 2 powi (e + 1)" and "- 1022 \<le> e"
    and "round_half_even (r / 2 powi (e - 52)) = n"
  shows "rnd64 r = of_int n * 2 powi (e - 52)"
proof -
  have "r \<noteq> 0"
  proof
    assume "r = 0"
    then have "(2::rat) powi e \<le> 0" using assms(1) by simp
    then show False using pow2_pos [of e] by linarith
  qed
  moreover have "max (expo r) (- 1022) = e"
    using expo_eq [OF assms(1,2)] assms(3) by simp
  ultimately show ?thesis using assms(4) by (simp add: rnd64_def Let_def)
qed

lemma fl_finite:
  assumes "\<bar>r\<bar> < 2 powi k" and "- 1021 \<le> k" and "k \<le> 1023"
  shows "fl r = Finite (rnd64 r)"
proof -
  have "\<bar>rnd64 r\<bar> \<le> \<bar>r\<bar> + \<bar>rnd64 r - r\<bar>" by linarith
  also have "\<dots> < 2 powi k + 2 powi (k - 54)"
    using rnd64_error [OF assms(1,2)] assms(1) by linarith
  also have "\<dots> \<le> 2 powi k + 2 powi k"
    using pow2_mono [of "k - 54" k] by simp
  also have "\<dots> = 2 powi (k + 1)" by (simp add: pow2_double)
  also have "\<dots> \<le> 2 powi 1024"
    using assms(3) by (intro pow2_mono) simp
  finally have "\<not> 2 powi 1024 \<le> \<bar>rnd64 r\<bar>" by simp
  then show ?thesis by (simp add: fl_def Let_def)
qed

lemma round_half_even_eqI:
  assumes "of_int n - 1 / 2 < q" and "q < of_int n + 1 / 2"
  shows "round_half_even q = n"
proof -
  define m where "m = \<lfloor>q\<rfloor>"
  have m: "of_int m \<le> q" "q < of_int m + 1" unfolding m_def by linarith+
  have mn: "m \<le> n"
  proof -
    have "(of_int m :: rat) < of_int n + 1" using m(1) assms(2) by linarith
    then have "(of_int m :: rat) < of_int (n + 1)" by simp
    then have "m < n + 1" by (simp only: of_int_less_iff)
    then show ?thesis by simp
  qed
  have nm: "n \<le> m + 1"
  proof -
    have "(of_int n :: rat) < of_int m + 2" using m(2) assms(1) by linarith
    then have "(of_int n :: rat) < of_int (m + 2)" by simp
    then have "n < m + 2" by (simp only: of_int_less_iff)
    then show ?thesis by simp
  qed
  from mn nm consider "n = m" | "n = m + 1" by linarith
  then show ?thesis
  proof cases
    case 1
    then have "q - of_int m < 1 / 2" using assms(2) by simp
    then show ?thesis using 1 by (simp add: round_half_even_def Let_def m_def)
  next
    case 2
    then have "1 / 2 < q - of_int m" using assms(1) by simp
    then show ?thesis using 2 by (simp add: round_half_even_def Let_def m_def)
  qed
qed

text \<open>The double nearest to 25.4.\<close>

lemma fl_25_4: "fl 25.4 = Finite (3574732204225331 / 140737488355328)"
proof -
  have "rnd64 25.4 = of_int 7149464408450662 * 2 powi (4 - 52)"
    by (rule rnd64_eqI) (simp_all add: round_half_even_eqI)
  then have r: "rnd64 25.4 = 3574732204225331 / 140737488355328" by simp
  have "fl 25.4 = Finite (rnd64 25.4)"
    by (rule fl_finite [of _ 5]) simp_all
  then show ?thesis by (simp only: r)
qed

subsection \<open>The converters on a bounded range\<close>

lemma mm_to_points_float_finite:
  assumes "\<bar>x\<bar> \<le> 10 ^ 13"
  shows "\<exists>p. mm_to_points_float (Finite x) = Some (Finite p)
           \<and> \<bar>p * (3574732204225331 / 140737488355328) - x * 72\<bar> \<le> 1 / 8"
proof -
  define c :: rat where "c = 3574732204225331 / 140737488355328"
  define t1 where "t1 = rnd64 (x * 72)"
  define r2 where "r2 = t1 / c"
  define t2 where "t2 = rnd64 r2"
  have c0: "c \<noteq> 0" by (simp add: c_def)
  have ax: "\<bar>x\<bar> \<le> 10000000000000" using assms by simp
  have "\<bar>x * 72\<bar> < 1125899906842624" using ax by linarith
  then have b1: "\<bar>x * 72\<bar> < 2 powi 50" by simp
  have f1: "fl (x * 72) = Finite t1"
    unfolding t1_def by (rule fl_finite [OF b1]) simp_all
  have e1: "\<bar>t1 - x * 72\<bar> \<le> 1 / 16"
    using rnd64_error [OF b1] by (simp add: t1_def)
  have r2: "r2 * (3574732204225331 / 140737488355328) = t1" by (simp add: r2_def c_def)
  have "\<bar>r2\<bar> < 35184372088832" using ax e1 r2 by linarith
  then have b2: "\<bar>r2\<bar> < 2 powi 45" by simp
  have f2: "fl (t1 / c) = Finite t2"
    unfolding t2_def r2_def [symmetric] by (rule fl_finite [OF b2]) simp_all
  have e2: "\<bar>t2 - r2\<bar> \<le> 1 / 512"
    using rnd64_error [OF b2] by (simp add: t2_def)
  have "mm_to_points_float (Finite x) = fdiv (fmul (Finite x) (Finite 72)) (Finite c)"
    by (simp only: mm_to_points_float_def fl_25_4 c_def)
  also have "\<dots> = Some (Finite t2)"
    using c0 by (simp only: fmul.simps fdiv.simps f1 f2 if_False)
  finally have "mm_to_points_float (Finite x) = Some (Finite t2)" .
  moreover have "\<bar>t2 * (3574732204225331 / 140737488355328) - x * 72\<bar> \<le> 1 / 8"
    using e1 e2 r2 by linarith
  ultimately show ?thesis by blast
qed

lemma points_to_mm_float_finite:
  assumes "\<bar>p\<bar> \<le> 3 * 10 ^ 13"
  shows "\<exists>y. points_to_mm_float (Finite p) = Some (Finite y)
           \<and> \<bar>y * 72 - p * (3574732204225331 / 140737488355328)\<bar> \<le> 1 / 4"
proof -
  define c :: rat where "c = 3574732204225331 / 140737488355328"
  define r3 where "r3 = p * c"
  define t3 where "t3 = rnd64 r3"
  define t4 where "t4 = rnd64 (t3 / 72)"
  have ap: "\<bar>p\<bar> \<le> 30000000000000" using assms by simp
  have pc: "r3 = p * (3574732204225331 / 140737488355328)" by (simp only: r3_def c_def)
  have "\<bar>r3\<bar> < 1125899906842624" using ap pc by linarith
  then have b3: "\<bar>r3\<bar> < 2 powi 50" by simp
  have f3: "fl (p * c) = Finite t3"
    unfolding t3_def r3_def [symmetric] by (rule fl_finite [OF b3]) simp_all
  have e3: "\<bar>t3 - r3\<bar> \<le> 1 / 16"
    using rnd64_error [OF b3] by (simp add: t3_def)
  have "\<bar>t3 / 72\<bar> < 17592186044416" using ap e3 pc by linarith
  then have b4: "\<bar>t3 / 72\<bar> < 2 powi 44" by simp
  have f4: "fl (t3 / 72) = Finite t4"
    unfolding t4_def by (rule fl_finite [OF b4]) simp_all
  have e4: "\<bar>t4 - t3 / 72\<bar> \<le> 1 / 1024"
    using rnd64_error [OF b4] by (simp add: t4_def)
  have n72: "(72::rat) \<noteq> 0" by simp
  have "points_to_mm_float (Finite p) = fdiv (fmul (Finite p) (Finite c)) (Finite 72)"
    by (simp only: points_to_mm_float_def fl_25_4 c_def)
  also have "\<dots> = Some (Finite t4)"
    using n72 by (simp only: fmul.simps fdiv.simps f3 f4 if_False)
  finally have "points_to_mm_float (Finite p) = Some (Finite t4)" .
  moreover have "\<bar>t4 * 72 - p * (3574732204225331 / 140737488355328)\<bar> \<le> 1 / 4"
    using e3 e4 pc by linarith
  ultimately show ?thesis by blast
qed

lemma float_round_trip:
  assumes "0 \<le> x" and "x \<le> 10 ^ 13"
  shows "\<exists>y. Option.bind (mm_to_points_float (Finite x)) points_to_mm_float = Some (Finite y)
           \<and> \<bar>y - x\<bar> < 1 / 100"
proof -
  from assms have ax: "\<bar>x\<bar> \<le> 10 ^ 13" by simp
  from mm_to_points_float_finite [OF ax] obtain p where
    p: "mm_to_points_float (Finite x) = Some (Finite p)"
    and ep: "\<bar>p * (3574732204225331 / 140737488355328) - x * 72\<bar> \<le> 1 / 8" by blast
  have xn: "x \<le> 10000000000000" using assms(2) by simp
  have "\<bar>p\<bar> \<le> 30000000000000" using ep assms(1) xn by linarith
  then have "\<bar>p\<bar> \<le> 3 * 10 ^ 13" by simp
  from points_to_mm_float_finite [OF this] obtain y where
    y: "points_to_mm_float (Finite p) = Some (Finite y)"
    and ey: "\<bar>y * 72 - p * (3574732204225331 / 140737488355328)\<bar> \<le> 1 / 4" by blast
  have "\<bar>y - x\<bar> < 1 / 100" using ep ey by linarith
  then show ?thesis using p y by simp
qed

subsection \<open>The converters at given doubles\<close>

lemma fl_eqI:
  assumes "2 powi e \<le> \<bar>r\<bar>" and "\<bar>r\<bar> < 2 powi (e + 1)" and "- 1022 \<le> e" and "e \<le> 1022"
    and "of_int n - 1 / 2 < r / 2 powi (e - 52)" and "r / 2 powi (e - 52) < of_int n + 1 / 2"
    and "v = of_int n * 2 powi (e - 52)"
  shows "fl r = Finite v"
proof -
  have "rnd64 r = v"
    unfolding assms(7)
    by (rule rnd64_eqI [OF assms(1-3)]) (rule round_half_even_eqI [OF assms(5,6)])
  moreover have "fl r = Finite (rnd64 r)"
    using assms(3,4) by (intro fl_finite [OF assms(2)]) simp_all
  ultimately show ?thesis by simp
qed

text \<open>The round trip of \<open>10 ^ 15\<close>, rounding by rounding.\<close>

lemma fl_1e15_step1: "fl (10 ^ 15 * 72) = Finite 72000000000000000"
  by (rule fl_eqI [where e = 55 and n = 9000000000000000]) simp_all

lemma fl_1e15_step2: "fl (72000000000000000 / (3574732204225331 / 140737488355328)) =
    Finite (5669291338582677 / 2)"
  by (rule fl_eqI [where e = 51 and n = 5669291338582677]) simp_all

lemma fl_1e15_step3: "fl (5669291338582677 / 2 * (3574732204225331 / 140737488355328)) =
    Finite 71999999999999992"
  by (rule fl_eqI [where e = 55 and n = 8999999999999999]) simp_all

lemma fl_1e15_step4: "fl (71999999999999992 / 72) = Finite (10 ^ 15 - 1 / 8)"
  by (rule fl_eqI [where e = 49 and n = 7999999999999999]) simp_all

lemma float_divisors_nonzero: "(3574732204225331 / 140737488355328 :: rat) \<noteq> 0" "(72 :: rat) \<noteq> 0"
  by simp_all

lemma mm_to_points_float_1e15: "mm_to_points_float (Finite (10 ^ 15)) = Some (Finite (5669291338582677 / 2))"
  using float_divisors_nonzero by (simp only: mm_to_points_float_def fl_25_4 fmul.simps fdiv.simps fl_1e15_step1 fl_1e15_step2 if_False)

lemma points_to_mm_float_1e15:
  "points_to_mm_float (Finite (5669291338582677 / 2)) = Some (Finite (10 ^ 15 - 1 / 8))"
  using float_divisors_nonzero by (simp only: points_to_mm_float_def fl_25_4 fmul.simps fdiv.simps fl_1e15_step3 fl_1e15_step4 if_False)

lemma round_trip_1e15:
  "Option.bind (mm_to_points_float (Finite (10 ^ 15))) points_to_mm_float =
     Some (Finite (10 ^ 15 - 1 / 8))"
  by (simp only: mm_to_points_float_1e15 points_to_mm_float_1e15 Option.bind.simps)

text \<open>\<open>2 ^ 1020 * 72\<close> is beyond the largest double.\<close>

lemma fl_overflow_step: "fl (2 ^ 1020 * 72) = Infinity True"
proof -
  have "rnd64 (2 ^ 1020 * 72) = of_int (9 * 2 ^ 49) * 2 powi (1026 - 52)"
    by (rule rnd64_eqI) (simp_all add: round_half_even_eqI)
  then have "rnd64 (2 ^ 1020 * 72) = 2 ^ 1020 * 72" by simp
  then show ?thesis by (simp add: fl_def Let_def)
qed

lemma round_trip_overflow:
  "Option.bind (mm_to_points_float (Finite (2 ^ 1020))) points_to_mm_float = Some (Infinity True)"
proof -
  have "mm_to_points_float (Finite (2 ^ 1020)) = Some (Infinity True)"
    using float_divisors_nonzero by (simp only: mm_to_points_float_def fl_25_4 fmul.simps fdiv.simps fl_overflow_step if_False)
      simp
  moreover have "points_to_mm_float (Infinity True) = Some (Infinity True)"
    using float_divisors_nonzero by (simp only: points_to_mm_float_def fl_25_4 fmul.simps fdiv.simps if_False) simp
  ultimately show ?thesis by simp
qed

text \<open>The double 25.4 is taken to 72 and back.\<close>

lemma fl_anchor_step1: "fl (3574732204225331 / 140737488355328 * 72) = Finite (8043147459506995 / 4398046511104)"
  by (rule fl_eqI [where e = 10 and n = 8043147459506995]) simp_all

lemma fl_anchor_step2: "fl (8043147459506995 / 4398046511104 / (3574732204225331 / 140737488355328)) = Finite 72"
  by (rule fl_eqI [where e = 6 and n = 5066549580791808]) simp_all

lemma fl_anchor_step3: "fl (72 * (3574732204225331 / 140737488355328)) = Finite (8043147459506995 / 4398046511104)"
  by (rule fl_eqI [where e = 10 and n = 8043147459506995]) simp_all

lemma fl_anchor_step4: "fl (8043147459506995 / 4398046511104 / 72) = Finite (3574732204225331 / 140737488355328)"
  by (rule fl_eqI [where e = 4 and n = 7149464408450662]) simp_all

lemma mm_to_points_float_anchor: "mm_to_points_float (fl 25.4) = Some (Finite 72)"
  using float_divisors_nonzero by (simp only: mm_to_points_float_def fl_25_4 fmul.simps fdiv.simps fl_anchor_step1 fl_anchor_step2 if_False)

lemma points_to_mm_float_anchor: "points_to_mm_float (Finite 72) = Some (fl 25.4)"
  using float_divisors_nonzero by (simp only: points_to_mm_float_def fl_25_4 fmul.simps fdiv.simps fl_anchor_step3 fl_anchor_step4 if_False)

text \<open>On the bounded range the converters are within 0.01 of the exact linear maps.\<close>

lemma mm_to_points_float_close:
  assumes "0 \<le> x" and "x \<le> 10 ^ 13"
  shows "\<exists>p. mm_to_points_float (Finite x) = Some (Finite p) \<and> \<bar>p - x * 72 / 25.4\<bar> < 1 / 100"
proof -
  from assms have ax: "\<bar>x\<bar> \<le> 10 ^ 13" by simp
  from mm_to_points_float_finite [OF ax] obtain p where
    p: "mm_to_points_float (Finite x) = Some (Finite p)"
    and ep: "\<bar>p * (3574732204225331 / 140737488355328) - x * 72\<bar> \<le> 1 / 8" by blast
  have xn: "x \<le> 10000000000000" using assms(2) by simp
  have eq: "x * 72 / 25.4 = x * (360 / 127)" by simp
  have "\<bar>p - x * 72 / 25.4\<bar> < 1 / 100"
    unfolding eq using ep assms(1) xn by linarith
  then show ?thesis using p by blast
qed

lemma points_to_mm_float_close:
  assumes "0 \<le> x" and "x \<le> 10 ^ 13"
  shows "\<exists>m. points_to_mm_float (Finite x) = Some (Finite m) \<and> \<bar>m - x * 25.4 / 72\<bar> < 1 / 100"
proof -
  from assms have ax: "\<bar>x\<bar> \<le> 3 * 10 ^ 13" by simp
  from points_to_mm_float_finite [OF ax] obtain m where
    m: "points_to_mm_float (Finite x) = Some (Finite m)"
    and em: "\<bar>m * 72 - x * (3574732204225331 / 140737488355328)\<bar> \<le> 1 / 4" by blast
  have xn: "x \<le> 10000000000000" using assms(2) by simp
  have eq: "x * 25.4 / 72 = x * (127 / 360)" by simp
  have "\<bar>m - x * 25.4 / 72\<bar> < 1 / 100"
    unfolding eq using em assms(1) xn by linarith
  then show ?thesis using m by blast
qed

text \<open>
  Claim C7, as amended.  The claim asks for the round trip to stay within 0.01 for every
  \<open>x \<ge> 0\<close>; in double precision that fails for large \<open>x\<close>.  What holds of the float
  arithmetic of the code: \<open>mm_to_points\<close> takes the double 25.4 to 72.0 and \<open>points_to_mm\<close>
  takes 72.0 to the double 25.4; and for every \<open>x\<close> with \<open>0 \<le> x \<le> 10 ^ 13\<close> (every
  double in that range, and every other rational there too),
  \<open>mm_to_points(x)\<close> is a finite double within 0.01 of \<open>x * 72 / 25.4\<close>,
  \<open>points_to_mm(x)\<close> is a finite double within 0.01 of \<open>x * 25.4 / 72\<close>, and
  \<open>points_to_mm(mm_to_points(x))\<close> is a finite double within 0.01 of \<open>x\<close>.
\<close>

theorem unit_converters_binary64:
  "mm_to_points_float (fl 25.4) = Some (Finite 72)
   \<and> points_to_mm_float (Finite 72) = Some (fl 25.4)
   \<and> (0 \<le> x \<and> x \<le> 10 ^ 13 \<longrightarrow>
        (\<exists>p. mm_to_points_float (Finite x) = Some (Finite p) \<and> \<bar>p - x * 72 / 25.4\<bar> < 1 / 100)
        \<and> (\<exists>m. points_to_mm_float (Finite x) = Some (Finite m) \<and> \<bar>m - x * 25.4 / 72\<bar> < 1 / 100)
        \<and> (\<exists>y. Option.bind (mm_to_points_float (Finite x)) points_to_mm_float = Some (Finite y)
               \<and> \<bar>y - x\<bar> < 1 / 100))"
  using mm_to_points_float_anchor points_to_mm_float_anchor
    mm_to_points_float_close [of x] points_to_mm_float_close [of x] float_round_trip [of x]
  by blast

theorem unit_converters_binary64_witness:
  "(0::rat) \<le> 60 \<and> (60::rat) \<le> 10 ^ 13
   \<and> (\<exists>p. mm_to_points_float (Finite 60) = Some (Finite p) \<and> \<bar>p - 60 * 72 / 25.4\<bar> < 1 / 100)
   \<and> (\<exists>y. Option.bind (mm_to_points_float (Finite 60)) points_to_mm_float = Some (Finite y)
          \<and> \<bar>y - 60\<bar> < 1 / 100)"
proof -
  have h: "(0::rat) \<le> 60 \<and> (60::rat) \<le> 10 ^ 13" by simp
  from unit_converters_binary64 [of 60] h show ?thesis by blast
qed

text \<open>
  The claim as stated fails at \<open>x = 10 ^ 15\<close>, a double: the round trip returns
  \<open>10 ^ 15 - 1 / 8\<close>, which is 0.125 away; and at \<open>x = 2 ^ 1020\<close>, a double, the product
  \<open>x * 72\<close> overflows and the round trip returns infinity.
\<close>

theorem float_round_trip_counterexample:
  "Option.bind (mm_to_points_float (Finite (10 ^ 15))) points_to_mm_float =
     Some (Finite (10 ^ 15 - 1 / 8))
   \<and> \<not> \<bar>(10 ^ 15 - 1 / 8) - 10 ^ 15\<bar> < (1 / 100 :: rat)
   \<and> Option.bind (mm_to_points_float (Finite (2 ^ 1020))) points_to_mm_float = Some (Infinity True)"
proof -
  have "\<not> \<bar>(10 ^ 15 - 1 / 8) - 10 ^ 15\<bar> < (1 / 100 :: rat)" by simp
  then show ?thesis using round_trip_1e15 round_trip_overflow by blast
qed

section \<open>Validation: properties\<close>

lemma fitz_open_parse_error:
  "pdf_parse E b = Inl m \<Longrightarrow> fitz_open E b w = (Inl (FileDataError m), w)"
  by (simp add: fitz_open_def)

lemma fitz_open_parsed:
  "pdf_parse E b = Inr ps \<Longrightarrow>
   fitz_open E b w =
     (Inr \<lparr>handle = length (handles w), pages = ps\<rparr>, w\<lparr>handles := handles w @ [True]\<rparr>)"
  by (simp add: fitz_open_def)

text \<open>
  Claim C1.  For every byte string, the pair returned by \<open>validate_pdf\<close> is: false with
  the "corrupt or unsupported format" message (followed by the text of the exception)
  when the bytes do not parse; false with the "no pages" message when the parsed
  document has 0 pages; false with the "too many pages (at most 50)" message when it
  has more than 50 pages; and true with the empty string otherwise, so a document of
  exactly 50 pages is accepted.  The three failure messages are non-empty and pairwise
  different.
\<close>

theorem validate_pdf_result:
  "fst (validate_pdf E pdf_bytes w) =
     (case pdf_parse E pdf_bytes of
        Inl m \<Rightarrow> (False, msg_corrupt @ m)
      | Inr ps \<Rightarrow>
          if length ps = 0 then (False, msg_no_pages)
          else if 50 < length ps then (False, msg_too_many)
          else (True, ''''))
   \<and> msg_no_pages \<noteq> '''' \<and> msg_too_many \<noteq> '''' \<and> msg_corrupt @ m' \<noteq> ''''
   \<and> msg_no_pages \<noteq> msg_too_many \<and> msg_no_pages \<noteq> msg_corrupt @ m'
   \<and> msg_too_many \<noteq> msg_corrupt @ m'"
  by (cases "pdf_parse E pdf_bytes")
     (simp_all add: validate_pdf_def fitz_open_def doc_len_def
        msg_no_pages_def msg_too_many_def msg_corrupt_def)

section \<open>Band image generation: properties\<close>

text \<open>
  Claim C8.  For every width, height and colour, the image returned by
  \<open>create_band_image\<close> has exactly the requested size and the mode RGB, whether or not a
  text is drawn; and when no text is given (\<open>None\<close> or the empty string) every pixel of
  the image is the background colour.
\<close>

theorem create_band_image_size_mode_fill:
  "img_size (create_band_image E w h c t tc) = (w, h)
   \<and> img_mode (create_band_image E w h c t tc) = ''RGB''
   \<and> getpixel (create_band_image E w h c None tc) p = getrgb E c
   \<and> getpixel (create_band_image E w h c (Some []) tc) p = getrgb E c"
  by (simp add: create_band_image_def Image_new_def ImageDraw_text_def Let_def
        split: option.split)

text \<open>
  Claim C9.  For a non-empty text, \<open>create_band_image\<close> takes the font size
  \<open>min (height div 3) 48\<close> (the source's floor division), uses the font file at that
  size when it can be loaded and the built-in default font otherwise (so it returns
  an image either way), measures the bounding box of the text in that font, and draws
  the text in the text colour at \<open>x = (width - text_width) div 2\<close>,
  \<open>y = (height - text_height) div 2\<close>, with floor division.
\<close>

theorem create_band_image_text:
  assumes "t \<noteq> []"
    and "fnt = (if font_loadable E ''/System/Library/Fonts/Arial.ttf'' (min (h div 3) 48)
                then FreeTypeFont ''/System/Library/Fonts/Arial.ttf'' (min (h div 3) 48)
                else DefaultFont)"
    and "text_bbox E fnt t = (bx0, by0, bx1, by1)"
  shows "create_band_image E w h bg (Some t) tc =
     ImageDraw_text E (Image_new ''RGB'' (w, h) (getrgb E bg))
       ((w - (bx1 - bx0)) div 2, (h - (by1 - by0)) div 2) t (getrgb E tc) fnt"
proof -
  have f: "(case ImageFont_truetype E ''/System/Library/Fonts/Arial.ttf'' (min (h div 3) 48) of
              Some f \<Rightarrow> f | None \<Rightarrow> ImageFont_load_default) = fnt"
    unfolding assms(2) by (simp add: ImageFont_truetype_def ImageFont_load_default_def)
  show ?thesis
    using assms(1,3) by (simp add: create_band_image_def Let_def f)
qed

theorem create_band_image_text_witness:
  "''abc'' \<noteq> [] \<and>
   create_band_image sample_env 400 100 ''#0000ff'' (Some ''abc'') ''#ffffff'' =
     ImageDraw_text sample_env (Image_new ''RGB'' (400, 100) [0, 0, 255])
       (191, 46) ''abc'' [255, 255, 255] DefaultFont"
  using create_band_image_text
    [of "''abc''" DefaultFont sample_env 100 0 3 18 11 400 "''#0000ff''" "''#ffffff''"]
  by (simp add: sample_env_def sample_getrgb_def)

section \<open>Compositing: properties\<close>

lemma attempt_ok: "attempt E c v = Inr v' \<Longrightarrow> v' = v"
  by (auto simp add: attempt_def split: option.splits)

lemma attempt_error: "attempt E c v = Inl e \<Longrightarrow> \<exists>m. e = LibraryError m"
  by (auto simp add: attempt_def split: option.splits)

text \<open>What one round of the loop does to the page list when no call raises.\<close>

lemma band_page_ok:
  assumes "band_page E img h y ps n = Inr ps'"
  shows "ps' = ps[n := (ps ! n)\<lparr>contents := contents (ps ! n) @
           [DrawRect (Rect 0 (mm_to_points y) (page_width (ps ! n))
                        (mm_to_points y + mm_to_points h)) (1, 1, 1) (1, 1, 1),
            InsertImage (Rect 0 (mm_to_points y) (page_width (ps ! n))
                           (mm_to_points y + mm_to_points h))
              (PNG (Image_resize E img
                      (py_int (page_width (ps ! n)), py_int (mm_to_points h))))]\<rparr>]"
  using assms
  by (auto simp add: band_page_def Let_def split: sum.splits dest!: attempt_ok)

lemma band_page_error:
  "band_page E img h y ps n = Inl e \<Longrightarrow> \<exists>m. e = LibraryError m"
  by (auto simp add: band_page_def Let_def split: sum.splits dest: attempt_error)

lemma page_loop_error:
  "page_loop E img h y ps ns = Inl e \<Longrightarrow> \<exists>m. e = LibraryError m"
  by (induction ns arbitrary: ps) (auto split: sum.splits dest: band_page_error)

lemma band_document_error:
  "band_document E img h y doc = Inl e \<Longrightarrow> \<exists>m. e = LibraryError m"
  by (auto simp add: band_document_def split: sum.splits dest: page_loop_error attempt_error)

lemma replace_band_with_image_error:
  "fst (replace_band_with_image E b img h y w) = Inl e \<Longrightarrow>
   (\<exists>m. e = LibraryError m) \<or> (\<exists>m. e = FileDataError m)"
  by (auto simp add: replace_band_with_image_def fitz_open_def
        split: sum.splits prod.splits dest: band_document_error)

text \<open>The loop over distinct page numbers: the pages visited are stamped, each from its
  own width; the others are untouched.\<close>

lemma page_loop_ok:
  fixes E img h y
  defines "stamp \<equiv> \<lambda>pg. pg\<lparr>contents := contents pg @
           [DrawRect (Rect 0 (mm_to_points y) (page_width pg)
                        (mm_to_points y + mm_to_points h)) (1, 1, 1) (1, 1, 1),
            InsertImage (Rect 0 (mm_to_points y) (page_width pg)
                           (mm_to_points y + mm_to_points h))
              (PNG (Image_resize E img
                      (py_int (page_width pg), py_int (mm_to_points h))))]\<rparr>"
  assumes "page_loop E img h y ps ns = Inr ps'"
    and "distinct ns" and "\<forall>n \<in> set ns. n < length ps"
  shows "length ps' = length ps \<and>
    (\<forall>i < length ps. ps' ! i = (if i \<in> set ns then stamp (ps ! i) else ps ! i))"
  using assms(2-)
proof (induction ns arbitrary: ps)
  case Nil
  then show ?case by simp
next
  case (Cons n ns)
  from Cons.prems(1) obtain ps1 where
    b: "band_page E img h y ps n = Inr ps1" and
    l: "page_loop E img h y ps1 ns = Inr ps'"
    by (auto split: sum.splits)
  have ps1: "ps1 = ps[n := stamp (ps ! n)]"
    using band_page_ok [OF b] by (simp add: stamp_def)
  have len: "length ps1 = length ps" by (simp add: ps1)
  have "\<forall>k \<in> set ns. k < length ps1" using Cons.prems(3) len by simp
  with Cons.IH [OF l] Cons.prems(2)
  have ih: "length ps' = length ps1"
      "\<And>i. i < length ps1 \<Longrightarrow> ps' ! i = (if i \<in> set ns then stamp (ps1 ! i) else ps1 ! i)"
    by simp_all
  have nn: "n \<notin> set ns" "n < length ps" using Cons.prems(2,3) by simp_all
  show ?case
  proof (intro conjI allI impI)
    show "length ps' = length ps" using ih(1) len by simp
  next
    fix i assume i: "i < length ps"
    then have i1: "i < length ps1" using len by simp
    show "ps' ! i = (if i \<in> set (n # ns) then stamp (ps ! i) else ps ! i)"
    proof (cases "i = n")
      case True
      then show ?thesis using ih(2) [OF i1] nn by (simp add: ps1)
    next
      case False
      then show ?thesis using ih(2) [OF i1] by (simp add: ps1)
    qed
  qed
qed

lemma page_loop_all:
  assumes "page_loop E img h y ps [0..<length ps] = Inr ps'"
  shows "ps' = map (\<lambda>pg. pg\<lparr>contents := contents pg @
           [DrawRect (Rect 0 (mm_to_points y) (page_width pg)
                        (mm_to_points y + mm_to_points h)) (1, 1, 1) (1, 1, 1),
            InsertImage (Rect 0 (mm_to_points y) (page_width pg)
                           (mm_to_points y + mm_to_points h))
              (PNG (Image_resize E img
                      (py_int (page_width pg), py_int (mm_to_points h))))]\<rparr>) ps"
  using page_loop_ok [OF assms] by (intro nth_equalityI) simp_all

text \<open>When \<open>replace_band_with_image\<close> returns bytes, they are the serialisation of the
  parsed pages, every one of them stamped.\<close>

lemma replace_band_with_image_ok:
  assumes "pdf_parse E b = Inr ps"
    and "fst (replace_band_with_image E b img h y w) = Inr out"
  shows "out = pdf_write E (map (\<lambda>pg. pg\<lparr>contents := contents pg @
           [DrawRect (Rect 0 (mm_to_points y) (page_width pg)
                        (mm_to_points y + mm_to_points h)) (1, 1, 1) (1, 1, 1),
            InsertImage (Rect 0 (mm_to_points y) (page_width pg)
                           (mm_to_points y + mm_to_points h))
              (PNG (Image_resize E img
                      (py_int (page_width pg), py_int (mm_to_points h))))]\<rparr>) ps)"
proof -
  from assms obtain ps' where
    l: "page_loop E img h y ps [0..<length ps] = Inr ps'" and
    o: "attempt E DocToBytes (pdf_write E ps') = Inr out"
    by (auto simp add: replace_band_with_image_def fitz_open_def band_document_def doc_len_def
          split: sum.splits)
  show ?thesis using attempt_ok [OF o] page_loop_all [OF l] by simp
qed

lemma sample_parse_one: "pdf_parse sample_env (pdf_header @ [0]) = Inr [a4_page]"
  by (simp add: sample_env_def sample_parse_def pdf_header_def)

lemma sample_one_page:
  "fst (replace_band_with_image sample_env (pdf_header @ [0])
          (Image_new ''RGB'' (595, 170) [0, 0, 255]) 60 0 world0) = Inr (pdf_header @ [0])"
  by (simp add: replace_band_with_image_def fitz_open_def band_document_def doc_len_def
        sample_env_def sample_parse_def sample_write_def pdf_header_def world0_def
        band_page_def attempt_def Let_def)

text \<open>
  Claim C3.  When \<open>replace_band_with_image\<close> returns, the document it serialises has the
  pages of the input, each with its own width and height unchanged and with two
  drawings added (the white rectangle and the image), both on the rectangle
  \<open>(0, mm_to_points y_offset_mm, page width, mm_to_points y_offset_mm +
  mm_to_points height_mm)\<close>: the width is the one of the page itself, the offset and the
  height are the same for all pages, and the page height does not enter (nothing is
  clamped).
\<close>

theorem band_rect_every_page:
  assumes "pdf_parse E b = Inr ps"
    and "fst (replace_band_with_image E b img height_mm y_offset_mm w) = Inr out"
  shows "\<exists>ps'. out = pdf_write E ps' \<and> length ps' = length ps \<and>
     (\<forall>i < length ps.
        page_width (ps' ! i) = page_width (ps ! i) \<and>
        page_height (ps' ! i) = page_height (ps ! i) \<and>
        map drawing_rect (contents (ps' ! i)) =
          map drawing_rect (contents (ps ! i)) @
            [Rect 0 (mm_to_points y_offset_mm) (page_width (ps ! i))
               (mm_to_points y_offset_mm + mm_to_points height_mm),
             Rect 0 (mm_to_points y_offset_mm) (page_width (ps ! i))
               (mm_to_points y_offset_mm + mm_to_points height_mm)])"
  by (rule exI, intro conjI, rule replace_band_with_image_ok [OF assms]) simp_all

theorem band_rect_every_page_witness:
  "pdf_parse sample_env (pdf_header @ [0]) = Inr [a4_page]
   \<and> fst (replace_band_with_image sample_env (pdf_header @ [0])
          (Image_new ''RGB'' (595, 170) [0, 0, 255]) 60 0 world0) = Inr (pdf_header @ [0])
   \<and> (\<exists>ps'. pdf_header @ [0] = pdf_write sample_env ps' \<and> length ps' = 1 \<and>
         map drawing_rect (contents (ps' ! 0)) =
           [Rect 0 0 595 (mm_to_points 60), Rect 0 0 595 (mm_to_points 60)])"
  using band_rect_every_page [OF sample_parse_one sample_one_page]
    sample_parse_one sample_one_page
  by (auto simp add: a4_page_def mm_to_points_def)

text \<open>
  Claim C4, as amended.  The claim asks for the band image to be resized to the rounded
  page width and band height; the code passes \<open>int(page_width)\<close> and
  \<open>int(band_height_pt)\<close>, which truncate.  What holds: when \<open>replace_band_with_image\<close>
  returns, the last drawing of every page is the image inserted on the band rectangle,
  and that image is the band image resized to exactly
  \<open>(py_int page_width, py_int (mm_to_points height_mm))\<close> pixels, in the mode of the
  band image, encoded as PNG.
\<close>

theorem band_image_resize_truncates:
  assumes "pdf_parse E b = Inr ps"
    and "fst (replace_band_with_image E b img height_mm y_offset_mm w) = Inr out"
  shows "\<exists>ps'. out = pdf_write E ps' \<and> length ps' = length ps \<and>
     (\<forall>i < length ps.
        last (contents (ps' ! i)) =
          InsertImage (Rect 0 (mm_to_points y_offset_mm) (page_width (ps ! i))
                         (mm_to_points y_offset_mm + mm_to_points height_mm))
            (PNG (Image_resize E img
                    (py_int (page_width (ps ! i)), py_int (mm_to_points height_mm)))) \<and>
        img_size (png_image (drawing_stream (last (contents (ps' ! i))))) =
          (py_int (page_width (ps ! i)), py_int (mm_to_points height_mm)) \<and>
        img_mode (png_image (drawing_stream (last (contents (ps' ! i))))) = img_mode img)"
  by (rule exI, intro conjI, rule replace_band_with_image_ok [OF assms])
     (simp_all add: Image_resize_def)

theorem band_image_resize_truncates_witness:
  "pdf_parse sample_env (pdf_header @ [0]) = Inr [a4_page]
   \<and> fst (replace_band_with_image sample_env (pdf_header @ [0])
          (Image_new ''RGB'' (595, 170) [0, 0, 255]) 60 0 world0) = Inr (pdf_header @ [0])
   \<and> (\<exists>ps'. pdf_header @ [0] = pdf_write sample_env ps' \<and> length ps' = 1 \<and>
         img_size (png_image (drawing_stream (last (contents (ps' ! 0))))) = (595, 170))"
  using band_image_resize_truncates [OF sample_parse_one sample_one_page]
    sample_parse_one sample_one_page
  by (auto simp add: a4_page_def mm_to_points_def py_int_def dpi_def)

text \<open>
  The claim as stated fails on an A4 page with a band of 7 mm: 7 mm are about 19.84
  points, the image inserted is 595 by 19 pixels, and rounding would give 595 by 20.
\<close>

theorem band_image_resize_round_counterexample:
  "\<not> isl (band_page sample_env (Image_new ''RGB'' (595, 19) [0, 0, 255]) 7 0 [a4_page] 0)
   \<and> img_size (png_image (drawing_stream (last (contents (hd (projr
        (band_page sample_env (Image_new ''RGB'' (595, 19) [0, 0, 255]) 7 0 [a4_page] 0)))))))
      = (595, 19)
   \<and> (round (page_width a4_page), round (mm_to_points 7)) = (595, 20)
   \<and> img_size (png_image (drawing_stream (last (contents (hd (projr
        (band_page sample_env (Image_new ''RGB'' (595, 19) [0, 0, 255]) 7 0 [a4_page] 0)))))))
      \<noteq> (round (page_width a4_page), round (mm_to_points 7))"
  by (simp add: band_page_def attempt_def Let_def sample_env_def a4_page_def Image_resize_def
        py_int_def mm_to_points_def dpi_def round_def)

section \<open>Document handles: properties\<close>

text \<open>The handle opened by \<open>replace_band_with_image\<close> is closed on every exit path: after
  the call, whether it returned bytes or raised in the loop or in the serialisation,
  the flag of the new handle is \<open>False\<close>; when the bytes do not parse, no handle was
  opened.\<close>

lemma replace_band_with_image_handles:
  "handles (snd (replace_band_with_image E b img h y w)) =
     (case pdf_parse E b of Inl m \<Rightarrow> handles w | Inr ps \<Rightarrow> handles w @ [False])"
  by (cases "pdf_parse E b")
     (simp_all add: replace_band_with_image_def fitz_open_def doc_close_def logger_error_def
        split: sum.splits)

text \<open>\<open>validate_pdf\<close> closes the handle only on the branch that accepts the document: on
  the two early returns the flag of the new handle is still \<open>True\<close>.\<close>

lemma validate_pdf_handles:
  "handles (snd (validate_pdf E b w)) =
     (case pdf_parse E b of
        Inl m \<Rightarrow> handles w
      | Inr ps \<Rightarrow>
          if length ps = 0 \<or> 50 < length ps then handles w @ [True]
          else handles w @ [False])"
  by (cases "pdf_parse E b")
     (simp_all add: validate_pdf_def fitz_open_def doc_len_def doc_close_def)

text \<open>
  Claim C6.  The claim asks that \<open>validate_pdf\<close> and \<open>replace_band_with_image\<close> close
  the document handle on every exit path.  \<open>replace_band_with_image\<close> does
  (\<open>replace_band_with_image_handles\<close>); \<open>validate_pdf\<close> does not: on a document of 51
  pages it returns the "too many pages" failure, on a document of no pages the "no
  pages" failure, and either time the handle it opened is still open in the state it
  leaves; on a document of 50 pages it closes the handle before it returns.
\<close>

theorem validate_pdf_early_return_leaves_handle_open:
  "validate_pdf sample_env (pdf_header @ replicate 51 0) world0 =
     ((False, msg_too_many), \<lparr>handles = [True], logged = []\<rparr>)
   \<and> validate_pdf sample_env pdf_header world0 =
     ((False, msg_no_pages), \<lparr>handles = [True], logged = []\<rparr>)
   \<and> validate_pdf sample_env (pdf_header @ replicate 50 0) world0 =
     ((True, ''''), \<lparr>handles = [False], logged = []\<rparr>)"
  by (simp add: validate_pdf_def fitz_open_def doc_len_def doc_close_def sample_env_def
        sample_parse_def pdf_header_def world0_def)

section \<open>Uploaded image: properties\<close>

lemma div255_mono: "a \<le> b \<Longrightarrow> div255 a \<le> div255 b"
  unfolding div255_def by (intro div_le_mono add_mono) simp_all

lemma div255_exact:
  assumes c: "c \<le> 255"
  shows "div255 (c * 255) = c"
proof -
  define q where "q = (c * 255 + 128) div 256"
  have "q * 256 + (c * 255 + 128) mod 256 = c * 255 + 128"
    unfolding q_def by simp
  moreover have "(c * 255 + 128) mod 256 < 256" by simp
  ultimately have q: "q \<le> c" "c \<le> q + 1" using c by linarith+
  have "(q + (c * 255 + 128)) div 256 = c"
    using q by (intro div_nat_eqI) simp_all
  then show ?thesis unfolding div255_def q_def .
qed

text \<open>Blending a channel value over white never darkens it.\<close>

lemma blend8_white_bounds:
  assumes "a \<le> 255" and "c \<le> 255"
  shows "c \<le> blend8 a 255 c \<and> blend8 a 255 c \<le> 255"
proof -
  have lo: "c * 255 \<le> 255 * (255 - a) + c * a"
  proof -
    have "c * 255 = c * (255 - a) + c * a"
      using assms(1) by (simp add: distrib_left [symmetric])
    also have "\<dots> \<le> 255 * (255 - a) + c * a"
      using assms(2) by (intro add_mono mult_le_mono) simp_all
    finally show ?thesis .
  qed
  have hi: "255 * (255 - a) + c * a \<le> 255 * 255"
  proof -
    have "255 * (255 - a) + c * a \<le> 255 * (255 - a) + 255 * a"
      using assms(2) by (intro add_mono mult_le_mono) simp_all
    also have "\<dots> = 255 * 255"
      using assms(1) by (simp add: distrib_left [symmetric])
    finally show ?thesis .
  qed
  have "div255 (c * 255) \<le> blend8 a 255 c"
    unfolding blend8_def by (rule div255_mono [OF lo])
  moreover have "blend8 a 255 c \<le> div255 (255 * 255)"
    unfolding blend8_def by (rule div255_mono [OF hi])
  moreover have "div255 (255 * 255) = 255" by (simp add: div255_def)
  ultimately show ?thesis using div255_exact [OF assms(2)] by simp
qed

lemma blend8_transparent: "blend8 0 255 c = 255"
  by (simp add: blend8_def div255_def)

lemma blend8_opaque: "c \<le> 255 \<Longrightarrow> blend8 255 255 c = c"
  using div255_exact [of c] by (simp add: blend8_def)

lemma uploaded_rgba:
  assumes "image_decode E image_bytes = Inr im" and "img_mode im = ''RGBA''"
  shows "uploaded_band_image E image_bytes =
     Inr (Image_paste (Image_new ''RGB'' (img_size im) [255, 255, 255]) im (split_last im))"
  using assms by (simp add: uploaded_band_image_def Image_open_def Let_def)

lemma uploaded_other:
  assumes "image_decode E image_bytes = Inr im"
    and "img_mode im \<noteq> ''RGBA''" and "img_mode im \<noteq> ''RGB''"
  shows "uploaded_band_image E image_bytes = Inr (Image_convert E im ''RGB'')"
  using assms by (simp add: uploaded_band_image_def Image_open_def)

lemma uploaded_rgb:
  assumes "image_decode E image_bytes = Inr im" and "img_mode im = ''RGB''"
  shows "uploaded_band_image E image_bytes = Inr im"
  using assms by (simp add: uploaded_band_image_def Image_open_def)

lemma paste_over_white_pixel:
  assumes "getpixel im p = [r, g, b, a]"
  shows "getpixel (Image_paste (Image_new ''RGB'' sz [255, 255, 255]) im (split_last im)) p =
     [blend8 a 255 r, blend8 a 255 g, blend8 a 255 b]"
  using assms by (simp add: Image_paste_def Image_new_def split_last_def)

lemma paste_over_white_shape:
  "img_mode (Image_paste (Image_new ''RGB'' sz c) im m) = ''RGB''
   \<and> img_size (Image_paste (Image_new ''RGB'' sz c) im m) = sz"
  by (simp add: Image_paste_def Image_new_def)

lemma sample_decode_rgba:
  "image_decode sample_env rgba_png =
     Inr \<lparr>img_mode = ''RGBA'', img_size = (1, 1), getpixel = (\<lambda>_. [255, 0, 0, 128])\<rparr>"
  by (simp add: sample_env_def sample_decode_def rgba_png_def la_png_def)

text \<open>
  Claim C5, as amended.  The claim asks for alpha to be composited over white in every
  alpha-bearing mode; the code does so for the mode RGBA only.  What holds: every
  decodable upload yields an image of mode RGB and of the size of the decoded image;
  when the decoded image has mode RGBA, each pixel \<open>(r, g, b, a)\<close> becomes the blend of
  its colour over white with weight \<open>a\<close>, which is never darker than the colour, is
  white for \<open>a = 0\<close> and is the colour itself for \<open>a = 255\<close>; an image of any other mode
  than RGBA and RGB (the alpha-bearing mode LA included) is converted with
  \<open>convert('RGB')\<close>; an RGB image is used as it is.
\<close>

theorem uploaded_band_image_rgb:
  assumes "image_decode E image_bytes = Inr im"
  shows "\<exists>out. uploaded_band_image E image_bytes = Inr out
     \<and> img_mode out = ''RGB'' \<and> img_size out = img_size im
     \<and> (img_mode im = ''RGBA'' \<longrightarrow>
          (\<forall>p r g b a. getpixel im p = [r, g, b, a]
               \<and> r \<le> 255 \<and> g \<le> 255 \<and> b \<le> 255 \<and> a \<le> 255 \<longrightarrow>
             getpixel out p = [blend8 a 255 r, blend8 a 255 g, blend8 a 255 b]
             \<and> r \<le> blend8 a 255 r \<and> g \<le> blend8 a 255 g \<and> b \<le> blend8 a 255 b
             \<and> blend8 a 255 r \<le> 255 \<and> blend8 a 255 g \<le> 255 \<and> blend8 a 255 b \<le> 255
             \<and> (a = 0 \<longrightarrow> getpixel out p = [255, 255, 255])
             \<and> (a = 255 \<longrightarrow> getpixel out p = [r, g, b])))
     \<and> (img_mode im \<noteq> ''RGBA'' \<and> img_mode im \<noteq> ''RGB'' \<longrightarrow>
          out = Image_convert E im ''RGB'')
     \<and> (img_mode im = ''RGB'' \<longrightarrow> out = im)"
proof (cases "img_mode im = ''RGBA''")
  case True
  let ?out = "Image_paste (Image_new ''RGB'' (img_size im) [255, 255, 255]) im (split_last im)"
  have px: "getpixel ?out p = [blend8 a 255 r, blend8 a 255 g, blend8 a 255 b]
             \<and> r \<le> blend8 a 255 r \<and> g \<le> blend8 a 255 g \<and> b \<le> blend8 a 255 b
             \<and> blend8 a 255 r \<le> 255 \<and> blend8 a 255 g \<le> 255 \<and> blend8 a 255 b \<le> 255
             \<and> (a = 0 \<longrightarrow> getpixel ?out p = [255, 255, 255])
             \<and> (a = 255 \<longrightarrow> getpixel ?out p = [r, g, b])"
    if "getpixel im p = [r, g, b, a] \<and> r \<le> 255 \<and> g \<le> 255 \<and> b \<le> 255 \<and> a \<le> 255"
    for p r g b a
  proof -
    from that have g: "getpixel im p = [r, g, b, a]"
      and le: "r \<le> 255" "g \<le> 255" "b \<le> 255" "a \<le> 255" by simp_all
    note eq = paste_over_white_pixel [OF g, of "img_size im"]
    show ?thesis
      using blend8_white_bounds [OF le(4) le(1)] blend8_white_bounds [OF le(4) le(2)]
        blend8_white_bounds [OF le(4) le(3)] le(1-3)
      by (simp add: eq blend8_transparent blend8_opaque)
  qed
  show ?thesis
  proof (intro exI [of _ ?out] conjI)
    show "uploaded_band_image E image_bytes = Inr ?out" by (rule uploaded_rgba [OF assms True])
    show "img_mode ?out = ''RGB''" by (simp add: paste_over_white_shape)
    show "img_size ?out = img_size im" by (simp add: paste_over_white_shape)
    show "img_mode im = ''RGBA'' \<longrightarrow>
          (\<forall>p r g b a. getpixel im p = [r, g, b, a]
               \<and> r \<le> 255 \<and> g \<le> 255 \<and> b \<le> 255 \<and> a \<le> 255 \<longrightarrow>
             getpixel ?out p = [blend8 a 255 r, blend8 a 255 g, blend8 a 255 b]
             \<and> r \<le> blend8 a 255 r \<and> g \<le> blend8 a 255 g \<and> b \<le> blend8 a 255 b
             \<and> blend8 a 255 r \<le> 255 \<and> blend8 a 255 g \<le> 255 \<and> blend8 a 255 b \<le> 255
             \<and> (a = 0 \<longrightarrow> getpixel ?out p = [255, 255, 255])
             \<and> (a = 255 \<longrightarrow> getpixel ?out p = [r, g, b]))"
      using px by blast
    show "img_mode im \<noteq> ''RGBA'' \<and> img_mode im \<noteq> ''RGB'' \<longrightarrow>
          ?out = Image_convert E im ''RGB''" using True by simp
    show "img_mode im = ''RGB'' \<longrightarrow> ?out = im" using True by simp
  qed
next
  case False
  show ?thesis
  proof (cases "img_mode im = ''RGB''")
    case True
    show ?thesis using uploaded_rgb [OF assms True] True by simp
  next
    case notrgb: False
    show ?thesis
      using uploaded_other [OF assms False notrgb] False notrgb
      by (simp add: Image_convert_def)
  qed
qed

text \<open>The half-transparent red pixel of the sample RGBA file comes out as
  \<open>(255, 127, 127)\<close>.\<close>

theorem uploaded_band_image_rgb_witness:
  "image_decode sample_env rgba_png =
     Inr \<lparr>img_mode = ''RGBA'', img_size = (1, 1), getpixel = (\<lambda>_. [255, 0, 0, 128])\<rparr>
   \<and> \<not> isl (uploaded_band_image sample_env rgba_png)
   \<and> img_mode (projr (uploaded_band_image sample_env rgba_png)) = ''RGB''
   \<and> img_size (projr (uploaded_band_image sample_env rgba_png)) = (1, 1)
   \<and> getpixel (projr (uploaded_band_image sample_env rgba_png)) (0, 0) = [255, 127, 127]"
proof -
  from uploaded_band_image_rgb [OF sample_decode_rgba]
  obtain out where o: "uploaded_band_image sample_env rgba_png = Inr out"
    and m: "img_mode out = ''RGB''" and s: "img_size out = (1, 1)"
    and px: "\<And>p r g b a. [255, 0, 0, 128] = [r, g, b, a]
               \<and> r \<le> 255 \<and> g \<le> 255 \<and> b \<le> 255 \<and> a \<le> (255::nat) \<Longrightarrow>
             getpixel out p = [blend8 a 255 r, blend8 a 255 g, blend8 a 255 b]"
    by (elim exE conjE) simp
  have "getpixel out (0, 0) = [blend8 128 255 255, blend8 128 255 0, blend8 128 255 0]"
    by (rule px) simp
  then have "getpixel out (0, 0) = [255, 127, 127]"
    by (simp add: blend8_def div255_def)
  with o m s sample_decode_rgba show ?thesis by simp
qed

text \<open>
  The claim as stated fails on the sample grey + alpha file: it decodes to mode LA with
  the pixel (grey 0, alpha 0), fully transparent; the code converts it to the black
  pixel \<open>(0, 0, 0)\<close>, where compositing over white would give \<open>(255, 255, 255)\<close>.
\<close>

theorem uploaded_band_image_la_counterexample:
  "img_mode (projr (Image_open sample_env la_png)) = ''LA''
   \<and> getpixel (projr (Image_open sample_env la_png)) (0, 0) = [0, 0]
   \<and> \<not> isl (uploaded_band_image sample_env la_png)
   \<and> getpixel (projr (uploaded_band_image sample_env la_png)) (0, 0) = [0, 0, 0]
   \<and> [blend8 0 255 0, blend8 0 255 0, blend8 0 255 0] = [255, 255, 255]"
  by (simp add: uploaded_band_image_def Image_open_def Image_convert_def sample_env_def
        sample_decode_def la_png_def blend8_def div255_def numeral_3_eq_3)

section \<open>Dispatch: properties\<close>

text \<open>The generated-band path never consults the image decoder.\<close>

lemma attempt_decode_free: "attempt (E\<lparr>image_decode := d\<rparr>) c v = attempt E c v"
  by (simp add: attempt_def)

lemma Image_resize_decode_free:
  "Image_resize (E\<lparr>image_decode := d\<rparr>) img sz = Image_resize E img sz"
  by (simp add: Image_resize_def)

lemma band_page_decode_free:
  "band_page (E\<lparr>image_decode := d\<rparr>) img h y ps n = band_page E img h y ps n"
  unfolding band_page_def attempt_decode_free Image_resize_decode_free ..

lemma page_loop_decode_free:
  "page_loop (E\<lparr>image_decode := d\<rparr>) img h y ps ns = page_loop E img h y ps ns"
  by (induction ns arbitrary: ps) (simp_all add: band_page_decode_free cong: sum.case_cong)

lemma band_document_decode_free:
  "band_document (E\<lparr>image_decode := d\<rparr>) img h y doc = band_document E img h y doc"
  by (simp add: band_document_def page_loop_decode_free attempt_decode_free
        cong: sum.case_cong)

lemma fitz_open_decode_free: "fitz_open (E\<lparr>image_decode := d\<rparr>) b w = fitz_open E b w"
  by (simp add: fitz_open_def)

lemma replace_band_with_image_decode_free:
  "replace_band_with_image (E\<lparr>image_decode := d\<rparr>) b img h y w =
   replace_band_with_image E b img h y w"
  unfolding replace_band_with_image_def fitz_open_decode_free band_document_decode_free ..

lemma create_band_image_decode_free:
  "create_band_image (E\<lparr>image_decode := d\<rparr>) wd ht bg t tc = create_band_image E wd ht bg t tc"
proof -
  have 1: "ImageFont_truetype (E\<lparr>image_decode := d\<rparr>) = ImageFont_truetype E"
    by (intro ext) (simp add: ImageFont_truetype_def)
  have 2: "ImageDraw_text (E\<lparr>image_decode := d\<rparr>) = ImageDraw_text E"
    by (intro ext) (simp add: ImageDraw_text_def)
  have 3: "getrgb (E\<lparr>image_decode := d\<rparr>) = getrgb E"
    "text_bbox (E\<lparr>image_decode := d\<rparr>) = text_bbox E" by simp_all
  show ?thesis unfolding create_band_image_def 1 2 3 ..
qed

text \<open>
  Claim C10.  When \<open>process_pdf\<close> is given the empty byte string as replacement image,
  it takes the generated-band branch: the call is \<open>replace_band_with_image\<close> on the
  band image made by \<open>create_band_image\<close> from the background colour, the text and the
  text colour, at the width \<open>int(mm_to_points(210))\<close> and the height
  \<open>int(mm_to_points(height_mm))\<close>; its result (output and state) is the one of the same
  call with no replacement image; it does not end in an image-decoding error; and it
  is the same whatever the image decoder would do with the bytes.
\<close>

theorem process_pdf_empty_upload:
  "process_pdf E pdf_bytes height_mm y_offset_mm bg t tc (Some []) w =
     replace_band_with_image E pdf_bytes
       (create_band_image E (py_int (mm_to_points 210)) (py_int (mm_to_points height_mm))
          bg t tc)
       height_mm y_offset_mm w
   \<and> process_pdf E pdf_bytes height_mm y_offset_mm bg t tc (Some []) w =
       process_pdf E pdf_bytes height_mm y_offset_mm bg t tc None w
   \<and> fst (process_pdf E pdf_bytes height_mm y_offset_mm bg t tc (Some []) w)
       \<noteq> Inl (UnidentifiedImageError m)
   \<and> process_pdf (E\<lparr>image_decode := d\<rparr>) pdf_bytes height_mm y_offset_mm bg t tc (Some []) w =
       process_pdf E pdf_bytes height_mm y_offset_mm bg t tc (Some []) w"
proof -
  let ?img = "create_band_image E (py_int (mm_to_points 210)) (py_int (mm_to_points height_mm))
                bg t tc"
  have gen: "process_pdf E pdf_bytes height_mm y_offset_mm bg t tc (Some []) w =
     replace_band_with_image E pdf_bytes ?img height_mm y_offset_mm w"
    by (simp add: process_pdf_def Let_def)
  have none: "process_pdf E pdf_bytes height_mm y_offset_mm bg t tc None w =
     replace_band_with_image E pdf_bytes ?img height_mm y_offset_mm w"
    by (simp add: process_pdf_def Let_def)
  have err: "fst (replace_band_with_image E pdf_bytes ?img height_mm y_offset_mm w)
       \<noteq> Inl (UnidentifiedImageError m)"
    using replace_band_with_image_error
      [of E pdf_bytes ?img height_mm y_offset_mm w "UnidentifiedImageError m"]
    by auto
  have dec: "process_pdf (E\<lparr>image_decode := d\<rparr>) pdf_bytes height_mm y_offset_mm bg t tc
       (Some []) w =
     replace_band_with_image E pdf_bytes ?img height_mm y_offset_mm w"
    by (simp add: process_pdf_def Let_def replace_band_with_image_decode_free
          create_band_image_decode_free)
  show ?thesis using gen none err dec by simp
qed

lemma a4_width_points: "py_int (mm_to_points 210) = 595"
  by (simp add: py_int_def mm_to_points_def dpi_def)

text \<open>
  Claim C2, as amended.  The claim sends every call with a replacement image present to
  the uploaded-image path; the code tests the truth value of the bytes, so an empty
  byte string goes to the generated-band path.  What holds: with a non-empty
  replacement image, \<open>process_pdf\<close> is \<open>replace_band_with_uploaded_image\<close> on those
  bytes, and the background colour, the text and the text colour have no effect on
  the result; with no replacement image, or an empty one, the band image is
  \<open>create_band_image\<close> at the width \<open>int(mm_to_points(210)) = 595\<close> and the height
  \<open>int(mm_to_points(height_mm))\<close>, handed to \<open>replace_band_with_image\<close>.
\<close>

theorem process_pdf_dispatch:
  "(image_bytes \<noteq> [] \<longrightarrow>
      process_pdf E pdf_bytes height_mm y_offset_mm bg t tc (Some image_bytes) w =
        replace_band_with_uploaded_image E pdf_bytes image_bytes height_mm y_offset_mm w
      \<and> process_pdf E pdf_bytes height_mm y_offset_mm bg t tc (Some image_bytes) w =
        process_pdf E pdf_bytes height_mm y_offset_mm bg' t' tc' (Some image_bytes) w)
   \<and> process_pdf E pdf_bytes height_mm y_offset_mm bg t tc None w =
       replace_band_with_image E pdf_bytes
         (create_band_image E 595 (py_int (mm_to_points height_mm)) bg t tc)
         height_mm y_offset_mm w
   \<and> process_pdf E pdf_bytes height_mm y_offset_mm bg t tc (Some []) w =
       replace_band_with_image E pdf_bytes
         (create_band_image E 595 (py_int (mm_to_points height_mm)) bg t tc)
         height_mm y_offset_mm w
   \<and> py_int (mm_to_points 210) = 595"
  by (simp add: process_pdf_def Let_def a4_width_points)

theorem process_pdf_dispatch_witness:
  "rgba_png \<noteq> []
   \<and> process_pdf sample_env (pdf_header @ [0]) 60 0 ''#0000ff'' (Some ''abc'') ''#ffffff''
        (Some rgba_png) world0 =
      replace_band_with_uploaded_image sample_env (pdf_header @ [0]) rgba_png 60 0 world0
   \<and> process_pdf sample_env (pdf_header @ [0]) 60 0 ''#0000ff'' (Some ''abc'') ''#ffffff''
        (Some rgba_png) world0 =
      process_pdf sample_env (pdf_header @ [0]) 60 0 ''#ff0000'' None ''#000000''
        (Some rgba_png) world0"
proof -
  have ne: "rgba_png \<noteq> []" by (simp add: rgba_png_def)
  from process_pdf_dispatch [of rgba_png sample_env "pdf_header @ [0]" 60 0 "''#0000ff''"
      "Some ''abc''" "''#ffffff''" world0 "''#ff0000''" None "''#000000''"] ne
  show ?thesis by blast
qed

text \<open>
  The claim as stated fails when the replacement image is present and empty: the call
  returns the document with a generated band, where the uploaded-image path on the
  same bytes raises the decoder's error.  The generated band image is 595 by 170
  pixels for a band of 60 mm: the truncations of 210 mm and of 60 mm in points.
\<close>

theorem process_pdf_present_empty_counterexample:
  "fst (process_pdf sample_env (pdf_header @ [0]) 60 0 ''#0000ff'' None ''#000000''
          (Some []) world0) = Inr (pdf_header @ [0])
   \<and> fst (replace_band_with_uploaded_image sample_env (pdf_header @ [0]) [] 60 0 world0) =
       Inl (UnidentifiedImageError ''cannot identify image file'')
   \<and> process_pdf sample_env (pdf_header @ [0]) 60 0 ''#0000ff'' None ''#000000''
          (Some []) world0 =
       replace_band_with_image sample_env (pdf_header @ [0])
         (create_band_image sample_env 595 170 ''#0000ff'' None ''#000000'') 60 0 world0
   \<and> real_of_int 595 \<noteq> mm_to_points 210
   \<and> real_of_int 170 \<noteq> mm_to_points 60"
  by (simp add: process_pdf_def replace_band_with_uploaded_image_def uploaded_band_image_def
        Image_open_def replace_band_with_image_def fitz_open_def band_document_def doc_len_def
        sample_env_def sample_parse_def sample_write_def sample_decode_def pdf_header_def
        la_png_def rgba_png_def world0_def band_page_def attempt_def Let_def
        py_int_def mm_to_points_def dpi_def)

end
